theory Spec2Isabelle
  imports Complex_Main "HOL-Library.Char_ord" "HOL-Library.List_Lexorder" "HOL-Library.Log_Nat"
begin

section \<open>Gutenberger: metadata matching, readability and theme analysis\<close>

text \<open>
  A shallow embedding of the analysis functions of \<^verbatim>\<open>Gutenberger.py\<close>:
  \<^verbatim>\<open>extract_text_from_epub\<close>, \<^verbatim>\<open>verify_metadata\<close>, \<^verbatim>\<open>detect_language\<close>,
  \<^verbatim>\<open>count_syllables\<close>, \<^verbatim>\<open>calculate_reading_difficulty\<close>, \<^verbatim>\<open>grade_to_cefr\<close> and
  \<^verbatim>\<open>detect_themes\<close>.

  Modelling conventions.
  \<^item> A Python \<^verbatim>\<open>str\<close> is a \<open>string\<close> whose characters are the code points
    U+0000 .. U+00FF (\<open>of_char c\<close> is the code point), so \<open>length\<close> is Python's
    \<^verbatim>\<open>len\<close>. Case mapping and the character classes \<^verbatim>\<open>\w\<close> and \<^verbatim>\<open>\s\<close> are those of
    Python 3 on this range. Every keyword table of the source lies in this range; the
    vowel \<^verbatim>\<open>U+0153\<close> of \<^verbatim>\<open>count_syllables\<close> lies outside and cannot occur in a text
    of the model.
  \<^item> A Python \<^verbatim>\<open>float\<close> is a \<open>real\<close> that is the value of an IEEE double. Every
    arithmetic result is rounded by \<open>fl\<close> to the nearest number with a significand of
    53 bits, ties to the even significand, as the hardware does. The exponent is not
    bounded: overflow, subnormal numbers and NaN are not modelled, and none of them can
    arise from the counts of a text that fits in memory. \<^verbatim>\<open>round(x, 1)\<close> is the double
    nearest to the nearest tenth of \<open>x\<close>, ties to the even tenth.
  \<^item> \<^verbatim>\<open>None\<close> is \<open>None\<close>; a dictionary with fixed keys is a record.
  \<^item> The optional libraries (\<^verbatim>\<open>textstat\<close>, \<^verbatim>\<open>pyphen\<close>), the ZIP reader and the HTML
    parser are parameters: \<open>None\<close> for a library that is not installed, and a function
    that returns \<open>None\<close> where the call raises.
\<close>

subsection \<open>Characters and strings\<close>

definition is_space :: "char \<Rightarrow> bool" where
  \<comment> \<open>\<^verbatim>\<open>str.isspace\<close>, the separator of \<^verbatim>\<open>str.split()\<close> and the class \<^verbatim>\<open>\s\<close>\<close>
  "is_space c =
     (let n = (of_char c :: nat)
      in (9 \<le> n \<and> n \<le> 13) \<or> (28 \<le> n \<and> n \<le> 32) \<or> n = 133 \<or> n = 160)"

definition is_word :: "char \<Rightarrow> bool" where
  \<comment> \<open>the class \<^verbatim>\<open>\w\<close> of \<^verbatim>\<open>re\<close> on \<^verbatim>\<open>str\<close> patterns: alphanumeric or underscore\<close>
  "is_word c =
     (let n = (of_char c :: nat)
      in (48 \<le> n \<and> n \<le> 57) \<or> (65 \<le> n \<and> n \<le> 90) \<or> n = 95 \<or> (97 \<le> n \<and> n \<le> 122)
         \<or> n = 170 \<or> n = 178 \<or> n = 179 \<or> n = 181 \<or> n = 185 \<or> n = 186
         \<or> (188 \<le> n \<and> n \<le> 190) \<or> (192 \<le> n \<and> n \<le> 214) \<or> (216 \<le> n \<and> n \<le> 246)
         \<or> 248 \<le> n)"

definition lower_char :: "char \<Rightarrow> char" where
  "lower_char c =
     (let n = (of_char c :: nat)
      in if (65 \<le> n \<and> n \<le> 90) \<or> (192 \<le> n \<and> n \<le> 222 \<and> n \<noteq> 215)
         then char_of (n + 32) else c)"

definition lower :: "string \<Rightarrow> string" where
  \<comment> \<open>\<^verbatim>\<open>str.lower\<close>\<close>
  "lower s = map lower_char s"

subsection \<open>Python string operations\<close>

fun startswith :: "string \<Rightarrow> string \<Rightarrow> bool" where
  "startswith s [] = True"
| "startswith [] (p # ps) = False"
| "startswith (c # cs) (p # ps) = (c = p \<and> startswith cs ps)"

definition endswith :: "string \<Rightarrow> string \<Rightarrow> bool" where
  "endswith s suffix = startswith (rev s) (rev suffix)"

fun py_in :: "string \<Rightarrow> string \<Rightarrow> bool" where
  \<comment> \<open>\<^verbatim>\<open>sub in s\<close>\<close>
  "py_in sub [] = (sub = [])"
| "py_in sub (c # cs) = (startswith (c # cs) sub \<or> py_in sub cs)"

fun join_sp :: "string list \<Rightarrow> string" where
  \<comment> \<open>\<^verbatim>\<open>' '.join(parts)\<close>\<close>
  "join_sp [] = []"
| "join_sp [x] = x"
| "join_sp (x # y # ys) = x @ '' '' @ join_sp (y # ys)"

fun split_acc :: "string \<Rightarrow> string \<Rightarrow> string list" where
  "split_acc cur [] = (if cur = [] then [] else [cur])"
| "split_acc cur (c # cs) =
     (if is_space c then (if cur = [] then split_acc [] cs else cur # split_acc [] cs)
      else split_acc (cur @ [c]) cs)"

definition py_split :: "string \<Rightarrow> string list" where
  \<comment> \<open>\<^verbatim>\<open>s.split()\<close>: the maximal runs of characters that are not whitespace\<close>
  "py_split s = split_acc [] s"

subsection \<open>Text extraction\<close>

text \<open>
  An opened archive is the list of its entries in archive order, each a name and its
  stored bytes. \<open>get_text\<close> stands for reading, decoding and parsing one entry
  (\<^verbatim>\<open>zf.read\<close>, \<^verbatim>\<open>decode\<close>, \<^verbatim>\<open>HTMLTextExtractor\<close>); it is \<open>None\<close> where one of them
  raises. An archive that cannot be opened is \<open>None\<close>.
\<close>

type_synonym 'b zipfile = "(string \<times> 'b) list"

definition namelist :: "'b zipfile \<Rightarrow> string list" where
  "namelist zf = map fst zf"

definition zf_read :: "'b zipfile \<Rightarrow> string \<Rightarrow> 'b option" where
  \<comment> \<open>of two entries with one name, the later one is read\<close>
  "zf_read zf name = map_of (rev zf) name"

definition html_files :: "'b zipfile \<Rightarrow> string list" where
  "html_files zf =
     filter (\<lambda>n. (endswith n ''.html'' \<or> endswith n ''.xhtml'' \<or> endswith n ''.htm'')
                 \<and> \<not> py_in ''toc'' (lower n))
            (namelist zf)"

fun extract_loop ::
  "('b \<Rightarrow> string option) \<Rightarrow> 'b zipfile \<Rightarrow> int \<Rightarrow> string list \<Rightarrow> string list \<Rightarrow> nat \<Rightarrow> string list"
where
  "extract_loop get_text zf max_chars [] text_parts total_chars = text_parts"
| "extract_loop get_text zf max_chars (name # names) text_parts total_chars =
     (if int total_chars \<ge> max_chars then text_parts
      else (case zf_read zf name of
              None \<Rightarrow> extract_loop get_text zf max_chars names text_parts total_chars
            | Some b \<Rightarrow>
               (case get_text b of
                  None \<Rightarrow> extract_loop get_text zf max_chars names text_parts total_chars
                | Some text \<Rightarrow>
                    extract_loop get_text zf max_chars names
                      (text_parts @ [text]) (total_chars + length text))))"

definition extract_text_from_epub ::
  "('b \<Rightarrow> string option) \<Rightarrow> 'b zipfile option \<Rightarrow> int \<Rightarrow> string"
where
  "extract_text_from_epub get_text epub max_chars =
     (case epub of
        None \<Rightarrow> []
      | Some zf \<Rightarrow> join_sp (extract_loop get_text zf max_chars (sort (html_files zf)) [] 0))"

subsection \<open>Metadata matching\<close>

record metadata =
  title :: "string option"
  author :: "string option"

record match_result =
  title_match :: bool
  author_match :: bool
  actual_title :: "string option"
  actual_author :: "string option"

definition truthy :: "string option \<Rightarrow> bool" where
  \<comment> \<open>the truth value of \<^verbatim>\<open>actual_metadata.get(key)\<close>: neither \<^verbatim>\<open>None\<close> nor empty\<close>
  "truthy v = (case v of None \<Rightarrow> False | Some s \<Rightarrow> s \<noteq> [])"

definition get_or_empty :: "string option \<Rightarrow> string" where
  \<comment> \<open>\<^verbatim>\<open>actual_metadata.get(key, '')\<close>\<close>
  "get_or_empty v = (case v of None \<Rightarrow> [] | Some s \<Rightarrow> s)"

definition normalize_str :: "string \<Rightarrow> string" where
  \<comment> \<open>the inner function \<^verbatim>\<open>normalize\<close> of \<^verbatim>\<open>verify_metadata\<close>\<close>
  "normalize_str s =
     (if s = [] then []
      else join_sp (py_split (filter (\<lambda>c. is_word c \<or> is_space c) (lower s))))"

definition verify_metadata :: "string \<Rightarrow> string \<Rightarrow> metadata \<Rightarrow> match_result" where
  "verify_metadata expected_title expected_author actual_metadata =
     (let result = \<lparr>title_match = False, author_match = False,
                    actual_title = title actual_metadata,
                    actual_author = author actual_metadata\<rparr>
      in if \<not> truthy (title actual_metadata) \<or> \<not> truthy (author actual_metadata)
         then result
         else
           let expected_title_norm = normalize_str expected_title;
               expected_author_norm = normalize_str expected_author;
               actual_title_norm = normalize_str (get_or_empty (title actual_metadata));
               actual_author_norm = normalize_str (get_or_empty (author actual_metadata));
               result =
                 (if expected_title_norm \<noteq> [] \<and> actual_title_norm \<noteq> [] then
                    (let expected_words = set (py_split expected_title_norm);
                         actual_words = set (py_split actual_title_norm);
                         common = expected_words \<inter> actual_words
                     in if card common \<ge> min 2 (card expected_words)
                        then result\<lparr>title_match := True\<rparr> else result)
                  else result);
               result =
                 (if expected_author_norm \<noteq> [] \<and> actual_author_norm \<noteq> [] then
                    (let expected_parts = py_split expected_author_norm;
                         actual_parts = py_split actual_author_norm
                     in if list_ex (\<lambda>ep. length ep > 2
                                     \<and> list_ex (\<lambda>ap. length ap > 2 \<and> (py_in ep ap \<or> py_in ap ep))
                                          actual_parts)
                             expected_parts
                        then result\<lparr>author_match := True\<rparr> else result)
                  else result)
           in result)"

text \<open>
  The reading of the specification: an alphanumeric character is a letter or a digit
  (\<^verbatim>\<open>str.isalnum\<close>); the underscore is not one.
\<close>

definition spec_alphanumeric :: "char \<Rightarrow> bool" where
  "spec_alphanumeric c =
     (let n = (of_char c :: nat)
      in (48 \<le> n \<and> n \<le> 57) \<or> (65 \<le> n \<and> n \<le> 90) \<or> (97 \<le> n \<and> n \<le> 122)
         \<or> n = 170 \<or> n = 178 \<or> n = 179 \<or> n = 181 \<or> n = 185 \<or> n = 186
         \<or> (188 \<le> n \<and> n \<le> 190) \<or> (192 \<le> n \<and> n \<le> 214) \<or> (216 \<le> n \<and> n \<le> 246)
         \<or> 248 \<le> n)"

subsection \<open>Language detection\<close>

datatype py_error = ValueError | ZeroDivisionError

definition lang_markers :: "(string \<times> string list) list" where
  "lang_markers =
     [(''de'', [''der'', ''die'', ''das'', ''und'', ''ist'', ''nicht'', ''sie'', ''ich'', ''ein'', ''eine'']),
      (''es'', [''el'', ''la'', ''los'', ''las'', ''que'', ''de'', ''en'', ''es'', ''por'', ''con'']),
      (''fr'', [''le'', ''la'', ''les'', ''des'', ''est'', ''sont'', ''nous'', ''vous'', ''pas'', ''qui'']),
      (''en'', [''the'', ''and'', ''is'', ''are'', ''was'', ''were'', ''have'', ''has'', ''been'', ''will''])]"

definition marker_score :: "string \<Rightarrow> string list \<Rightarrow> nat" where
  \<comment> \<open>\<^verbatim>\<open>sum(1 for w in words if f' {w} ' in text_lower)\<close>\<close>
  "marker_score text_lower words =
     length (filter (\<lambda>w. py_in ('' '' @ w @ '' '') text_lower) words)"

fun max_key_from :: "string \<times> nat \<Rightarrow> (string \<times> nat) list \<Rightarrow> string" where
  "max_key_from best [] = fst best"
| "max_key_from best (x # xs) =
     (if snd x > snd best then max_key_from x xs else max_key_from best xs)"

fun py_max_key :: "(string \<times> nat) list \<Rightarrow> py_error + string" where
  \<comment> \<open>\<^verbatim>\<open>max(scores, key=scores.get)\<close>: the first key whose value is maximal\<close>
  "py_max_key [] = Inl ValueError"
| "py_max_key (s # ss) = Inr (max_key_from s ss)"

definition detect_language :: "string \<Rightarrow> py_error + string" where
  "detect_language text =
     (let text_lower = lower text;
          scores = map (\<lambda>(lang, words). (lang, marker_score text_lower words)) lang_markers
      in py_max_key scores)"

text \<open>
  The reading of the specification: a language's score is the number of occurrences of
  its marker words in the lowercased text, each occurrence delimited by spaces.
\<close>

fun count_occurrences :: "string \<Rightarrow> string \<Rightarrow> nat" where
  "count_occurrences sub [] = (if sub = [] then 1 else 0)"
| "count_occurrences sub (c # cs) =
     (if startswith (c # cs) sub then 1 else 0) + count_occurrences sub cs"

definition spec_detect_language :: "string \<Rightarrow> py_error + string" where
  "spec_detect_language text =
     py_max_key
       (map (\<lambda>(lang, words).
               (lang, sum_list (map (\<lambda>w. count_occurrences ('' '' @ w @ '' '') (lower text)) words)))
            lang_markers)"

subsection \<open>Syllables\<close>

definition vowels :: string where
  \<comment> \<open>the vowel string of the source without its last character, U+0153\<close>
  "vowels =
     ''aeiouy'' @
     [CHR 0xE4, CHR 0xF6, CHR 0xFC, CHR 0xE1, CHR 0xE9, CHR 0xED, CHR 0xF3, CHR 0xFA,
      CHR 0xE0, CHR 0xE8, CHR 0xEC, CHR 0xF2, CHR 0xF9, CHR 0xE2, CHR 0xEA, CHR 0xEE,
      CHR 0xF4, CHR 0xFB, CHR 0xE6]"

fun vowel_groups :: "string \<Rightarrow> nat \<Rightarrow> bool \<Rightarrow> nat" where
  \<comment> \<open>the loop over the characters of the word, with \<^verbatim>\<open>count\<close> and \<^verbatim>\<open>prev_vowel\<close>\<close>
  "vowel_groups [] count prev_vowel = count"
| "vowel_groups (char # word) count prev_vowel =
     (let is_vowel = (char \<in> set vowels)
      in vowel_groups word (if is_vowel \<and> \<not> prev_vowel then count + 1 else count) is_vowel)"

text \<open>
  \<open>pyphen\<close> is \<open>None\<close> when the hyphenation library is not installed; otherwise it
  takes a locale and a word to the word with a hyphen at each break point
  (\<^verbatim>\<open>pyphen.Pyphen(lang=...).inserted(word)\<close>), or to \<open>None\<close> where the library raises.
\<close>

type_synonym pyphen = "(string \<Rightarrow> string \<Rightarrow> string option) option"

definition pyphen_lang :: "string \<Rightarrow> string" where
  \<comment> \<open>\<^verbatim>\<open>lang_map.get(lang, 'en_US')\<close>\<close>
  "pyphen_lang lang =
     (case map_of [(''en'', ''en_US''), (''de'', ''de_DE''), (''es'', ''es_ES''), (''fr'', ''fr_FR'')] lang of
        Some l \<Rightarrow> l | None \<Rightarrow> ''en_US'')"

definition count_syllables :: "pyphen \<Rightarrow> string \<Rightarrow> string \<Rightarrow> nat" where
  "count_syllables pyphen word lang =
     (case (case pyphen of None \<Rightarrow> None | Some inserted \<Rightarrow> inserted (pyphen_lang lang) word) of
        Some hyphenated \<Rightarrow>
          \<comment> \<open>\<^verbatim>\<open>len(hyphenated.split('-'))\<close>: one more than the number of hyphens\<close>
          Suc (length (filter (\<lambda>c. c = CHR ''-'') hyphenated))
      | None \<Rightarrow> max 1 (vowel_groups (lower word) 0 False))"

subsection \<open>Proficiency bands\<close>

fun grade_to_cefr :: "real option \<Rightarrow> string option" where
  "grade_to_cefr None = None"
| "grade_to_cefr (Some grade_level) =
     (if grade_level \<le> 4 then Some ''A1''
      else if grade_level \<le> 6 then Some ''A2''
      else if grade_level \<le> 8 then Some ''B1''
      else if grade_level \<le> 10 then Some ''B2''
      else if grade_level \<le> 13 then Some ''C1''
      else Some ''C2'')"

subsection \<open>Reading difficulty\<close>

record difficulty =
  grade_level :: "real option"
  cefr :: "string option"
  error :: "string option"
  language :: "string option"

definition round_half_even :: "real \<Rightarrow> int" where
  "round_half_even x =
     (let f = \<lfloor>x\<rfloor>; d = x - of_int f
      in if d < 1 / 2 then f else if d > 1 / 2 then f + 1 else if even f then f else f + 1)"

definition float_exponent :: "real \<Rightarrow> int" where
  \<comment> \<open>the exponent \<open>e\<close> of a number that is not 0: \<open>2 ^ e \<le> \<bar>x\<bar> < 2 ^ (e + 1)\<close>\<close>
  "float_exponent x =
     (if 1 \<le> \<bar>x\<bar> then bitlen \<lfloor>\<bar>x\<bar>\<rfloor> - 1 else - bitlen (\<lceil>1 / \<bar>x\<bar>\<rceil> - 1))"

definition fl :: "real \<Rightarrow> real" where
  \<comment> \<open>rounding to the nearest double: a multiple of \<open>2 ^ (e - 52)\<close>, ties to even\<close>
  "fl x =
     (if x = 0 then 0
      else let ulp = 2 powi (float_exponent x - 52)
           in of_int (round_half_even (x / ulp)) * ulp)"

definition fadd :: "real \<Rightarrow> real \<Rightarrow> real" where
  "fadd a b = fl (a + b)"

definition fsub :: "real \<Rightarrow> real \<Rightarrow> real" where
  "fsub a b = fl (a - b)"

definition fmul :: "real \<Rightarrow> real \<Rightarrow> real" where
  "fmul a b = fl (a * b)"

definition int_div :: "nat \<Rightarrow> nat \<Rightarrow> real" where
  \<comment> \<open>\<^verbatim>\<open>a / b\<close> on two integers, \<open>b\<close> not 0: the quotient, rounded once\<close>
  "int_div a b = fl (real a / real b)"

definition py_round1 :: "real \<Rightarrow> real" where
  \<comment> \<open>\<^verbatim>\<open>round(x, 1)\<close>\<close>
  "py_round1 x = fl (of_int (round_half_even (x * 10)) / 10)"

definition py_div :: "nat \<Rightarrow> nat \<Rightarrow> py_error + real" where
  \<comment> \<open>\<^verbatim>\<open>a / b\<close> on two counts\<close>
  "py_div a b = (if b = 0 then Inl ZeroDivisionError else Inr (int_div a b))"

function findall_runs :: "(char \<Rightarrow> bool) \<Rightarrow> string \<Rightarrow> string list" where
  \<comment> \<open>\<^verbatim>\<open>re.findall\<close> of a character class under \<^verbatim>\<open>+\<close>: the maximal runs, left to right\<close>
  "findall_runs P [] = []"
| "findall_runs P (c # cs) =
     (if P c then takeWhile P (c # cs) # findall_runs P (dropWhile P cs)
      else findall_runs P cs)"
  by pat_completeness auto
termination
  by (relation "measure (\<lambda>(P, s). length s)") (auto simp: less_Suc_eq_le length_dropWhile_le)

definition is_terminator :: "char \<Rightarrow> bool" where
  "is_terminator c = (c \<in> set ''.!?'')"

text \<open>
  \<open>textstat\<close> is \<open>None\<close> when the readability library is not installed; otherwise it
  takes a language and a text to the grade of \<^verbatim>\<open>textstat.flesch_kincaid_grade\<close>, or to
  \<open>None\<close> where \<^verbatim>\<open>set_lang\<close> or the grade computation raises.
\<close>

type_synonym textstat = "(string \<Rightarrow> string \<Rightarrow> real option) option"

definition textstat_lang :: "string \<Rightarrow> string" where
  \<comment> \<open>\<^verbatim>\<open>lang_map.get(lang, 'en')\<close>\<close>
  "textstat_lang lang =
     (case map_of [(''en'', ''en''), (''de'', ''de''), (''es'', ''es''), (''fr'', ''fr'')] lang of
        Some l \<Rightarrow> l | None \<Rightarrow> ''en'')"

definition preferred_grade :: "textstat \<Rightarrow> string \<Rightarrow> string \<Rightarrow> real option" where
  \<comment> \<open>the \<^verbatim>\<open>if TEXTSTAT_AVAILABLE\<close> block: the grade, or \<open>None\<close> where control falls through\<close>
  "preferred_grade textstat lang text =
     (case textstat of
        None \<Rightarrow> None
      | Some flesch_kincaid_grade \<Rightarrow> flesch_kincaid_grade (textstat_lang lang) text)"

definition resolve_lang :: "string \<Rightarrow> string option \<Rightarrow> py_error + string" where
  \<comment> \<open>\<^verbatim>\<open>if not lang: lang = detect_language(text)\<close>\<close>
  "resolve_lang text lang = (if truthy lang then Inr (get_or_empty lang) else detect_language text)"

definition cleanup :: "string \<Rightarrow> string" where
  \<comment> \<open>\<^verbatim>\<open>re.sub(r'[^\w\s.!?]', '', text)\<close>\<close>
  "cleanup text = filter (\<lambda>c. is_word c \<or> is_space c \<or> is_terminator c) text"

text \<open>
  The reading of the specification: the sentences are the terminator runs, counted as the
  terminators that do not follow another terminator.
\<close>

definition spec_terminator_runs :: "string \<Rightarrow> nat" where
  "spec_terminator_runs s =
     length (filter (\<lambda>(prev, c). is_terminator c
                                 \<and> (case prev of None \<Rightarrow> True | Some q \<Rightarrow> \<not> is_terminator q))
                    (zip (None # map Some s) s))"

definition manual_calculation :: "pyphen \<Rightarrow> string \<Rightarrow> string \<Rightarrow> py_error + difficulty" where
  \<comment> \<open>the part of \<^verbatim>\<open>calculate_reading_difficulty\<close> below the comment \<^verbatim>\<open># Manual calculation\<close>\<close>
  "manual_calculation pyphen text0 lang =
     (let text = cleanup text0;
          sentences = max 1 (length (findall_runs is_terminator text));
          words = py_split text;
          word_count = length words
      in if word_count < 10 then
           Inr \<lparr>grade_level = None, cefr = None, error = Some ''Not enough words'',
                language = None\<rparr>
         else
           let syllable_count = sum_list (map (\<lambda>w. count_syllables pyphen w lang) words)
           in case py_div word_count sentences of
                Inl e \<Rightarrow> Inl e
              | Inr avg_sentence_length \<Rightarrow>
                 (case py_div syllable_count word_count of
                    Inl e \<Rightarrow> Inl e
                  | Inr avg_syllables_per_word \<Rightarrow>
                     (let grade_level =
                            fsub (fadd (fmul (fl 0.39) avg_sentence_length)
                                       (fmul (fl 11.8) avg_syllables_per_word))
                                 (fl 15.59)
                      in Inr \<lparr>grade_level = Some (py_round1 (max 0 grade_level)),
                              cefr = grade_to_cefr (Some grade_level),
                              error = None, language = Some lang\<rparr>)))"

definition calculate_reading_difficulty ::
  "textstat \<Rightarrow> pyphen \<Rightarrow> string \<Rightarrow> string option \<Rightarrow> py_error + difficulty"
where
  "calculate_reading_difficulty textstat pyphen text lang =
     (if text = [] \<or> length text < 100 then
        Inr \<lparr>grade_level = None, cefr = None, error = Some ''Text too short'', language = None\<rparr>
      else
        case resolve_lang text lang of
          Inl e \<Rightarrow> Inl e
        | Inr lang \<Rightarrow>
           (case preferred_grade textstat lang text of
              Some grade \<Rightarrow>
                Inr \<lparr>grade_level = Some (py_round1 grade), cefr = grade_to_cefr (Some grade),
                     error = None, language = Some lang\<rparr>
            | None \<Rightarrow> manual_calculation pyphen text lang))"

subsection \<open>Theme detection\<close>





















subsection \<open>Example texts\<close>

text \<open>Texts on which the theorems below are evaluated.\<close>

definition dog_friend :: string where
  "dog_friend =
     ''the small black dog ran through the long dark wood and then brought back a thick branch for his friend.''"

definition dog_father :: string where
  "dog_father =
     ''the small black dog ran through the long dark wood and then brought back a thick branch for his father.''"

definition dog_friend_four :: string where
  "dog_friend_four =
     ''the small black dog ran through the long dark wood. and then. brought back a thick branch for. his friend.''"

definition dog_father_four :: string where
  "dog_father_four =
     ''the small black dog ran through the long dark wood. and then. brought back a thick branch for. his father.''"

definition three_long_words :: string where
  "three_long_words =
     ''Supercalifragilisticexpialidocious, antidisestablishmentarianism; pneumonoultramicroscopicsilicovolcanoconiosis!!!''"

definition love_and_war :: string where
  "love_and_war =
     ''Love and war; the sea, the sea! a journey of love''"

definition dog_friend_dash :: string where
  "dog_friend_dash =
     ''the small black dog ran through the long dark wood - and then brought back a thick branch; for his friend.''"

definition farmer_supper :: string where
  "farmer_supper =
     ''-------------------- the old farmer brought fresh apples and salt for supper: --------------------------''"

definition watchman :: string where
  "watchman =
     ''Stop! Wait. Who goes there? The old watchman -- holding a lantern -- answered: nobody but the tired merchant, sir. Come. In!''"


definition castle_text :: string where
  "castle_text =
     ''we met the king and the queen of the castle de la mancha en route to madrid''"

section \<open>Theorems\<close>

subsection \<open>The character classes on the bits of a character\<close>

text \<open>
  The classes are defined on code points. For evaluation on a literal text they are
  restated on the eight bits of a character (\<open>b0\<close> the lowest); each equation is checked
  on all 256 characters. Lowercasing an uppercase letter of this range adds 32, which sets
  bit 5.
\<close>

lemma is_space_Char [code]:
  "is_space (Char b0 b1 b2 b3 b4 b5 b6 b7) \<longleftrightarrow>
     (if b7 then (\<not> b6 \<and> (if b5 then (\<not> b4 \<and> (\<not> b3 \<and> (\<not> b2
     \<and> (\<not> b1 \<and> \<not> b0)))) else (\<not> b4 \<and> (\<not> b3 \<and> (b2
     \<and> (\<not> b1 \<and> b0)))))) else (\<not> b6 \<and> (if b5 then (\<not> b4 \<and>
     (\<not> b3 \<and> (\<not> b2 \<and> (\<not> b1 \<and> \<not> b0)))) else (if b4 then (b3
     \<and> b2) else (b3 \<and> (if b2 then \<not> b1 else (b1 \<or> b0)))))))"
  by (cases b0; cases b1; cases b2; cases b3; cases b4; cases b5; cases b6; cases b7;
      simp add: is_space_def)

lemma is_word_Char [code]:
  "is_word (Char b0 b1 b2 b3 b4 b5 b6 b7) \<longleftrightarrow>
     (if b7 then (if b6 then (if b5 then (\<not> b4 \<or> (b3 \<or> (\<not> b2 \<or> (\<not>
     b1 \<or> \<not> b0)))) else (\<not> b4 \<or> (b3 \<or> (\<not> b2 \<or> (\<not> b1 \<or>
     \<not> b0))))) else (b5 \<and> (if b4 then (if b3 then (if b2 then (\<not> b1 \<or>
     \<not> b0) else (if b1 then \<not> b0 else b0)) else (if b2 then (\<not> b1 \<and> b0)
     else b1)) else (b3 \<and> (\<not> b2 \<and> (b1 \<and> \<not> b0)))))) else (if b6 then
     (if b5 then (if b4 then (\<not> b3 \<or> (\<not> b2 \<and> (\<not> b1 \<or> \<not> b0)))
     else (b3 \<or> (b2 \<or> (b1 \<or> b0)))) else (if b4 then (\<not> b3 \<or> (if b2 then
     (b1 \<and> b0) else (\<not> b1 \<or> \<not> b0))) else (b3 \<or> (b2 \<or> (b1 \<or>
     b0))))) else (b5 \<and> (b4 \<and> (\<not> b3 \<or> (\<not> b2 \<and> \<not> b1))))))"
  by (cases b0; cases b1; cases b2; cases b3; cases b4; cases b5; cases b6; cases b7;
      simp add: is_word_def)

lemma lower_char_Char [code]:
  "lower_char (Char b0 b1 b2 b3 b4 b5 b6 b7) =
     (if (if b7 then (b6 \<and> (\<not> b5 \<and> (\<not> b4 \<or> (if b3 then (\<not> b2 \<or>
         (\<not> b1 \<or> \<not> b0)) else (\<not> b2 \<or> (\<not> b1 \<or> \<not> b0)))))) else
         (b6 \<and> (\<not> b5 \<and> (if b4 then (\<not> b3 \<or> (\<not> b2 \<and> (\<not> b1
         \<or> \<not> b0))) else (b3 \<or> (b2 \<or> (b1 \<or> b0)))))))
      then Char b0 b1 b2 b3 b4 True b6 b7 else Char b0 b1 b2 b3 b4 b5 b6 b7)"
  by (cases b0; cases b1; cases b2; cases b3; cases b4; cases b5; cases b6; cases b7;
      simp add: lower_char_def char_of_def bit_Suc_0_iff)

subsection \<open>Band mapping\<close>

text \<open>
  C1. For every grade in the interval from 0 to 30, \<open>grade_to_cefr\<close> returns exactly one
  of the six bands A1, A2, B1, B2, C1, C2, with inclusive upper bounds: at most 4 gives A1,
  at most 6 gives A2, at most 8 gives B1, at most 10 gives B2, at most 13 gives C1,
  anything above gives C2. So 4.0 gives A1, 4.1 gives A2, 13.0 gives C1 and 13.1 gives C2.
  A null grade gives a null band.
\<close>

theorem grade_to_cefr_bands:
  "grade_to_cefr None = None
   \<and> grade_to_cefr (Some 4.0) = Some ''A1'' \<and> grade_to_cefr (Some 4.1) = Some ''A2''
   \<and> grade_to_cefr (Some 13.0) = Some ''C1'' \<and> grade_to_cefr (Some 13.1) = Some ''C2''
   \<and> (0 \<le> g \<and> g \<le> 30 \<longrightarrow>
        grade_to_cefr (Some g) \<in> Some ` {''A1'', ''A2'', ''B1'', ''B2'', ''C1'', ''C2''}
        \<and> (grade_to_cefr (Some g) = Some ''A1'') = (g \<le> 4)
        \<and> (grade_to_cefr (Some g) = Some ''A2'') = (4 < g \<and> g \<le> 6)
        \<and> (grade_to_cefr (Some g) = Some ''B1'') = (6 < g \<and> g \<le> 8)
        \<and> (grade_to_cefr (Some g) = Some ''B2'') = (8 < g \<and> g \<le> 10)
        \<and> (grade_to_cefr (Some g) = Some ''C1'') = (10 < g \<and> g \<le> 13)
        \<and> (grade_to_cefr (Some g) = Some ''C2'') = (13 < g))"
  by simp

theorem grade_to_cefr_bands_witness:
  "(0::real) \<le> 7 \<and> (7::real) \<le> 30 \<and> grade_to_cefr (Some 7) = Some ''B1''"
  using grade_to_cefr_bands [of 7] by simp

subsection \<open>Substring tests\<close>

lemma startswith_iff: "startswith s p \<longleftrightarrow> (\<exists>r. s = p @ r)"
  by (induction s p rule: startswith.induct) auto

lemma py_in_iff: "py_in sub s \<longleftrightarrow> (\<exists>a b. s = a @ sub @ b)"
proof (induction s)
  case Nil
  then show ?case by auto
next
  case (Cons c cs)
  show ?case
  proof
    assume "py_in sub (c # cs)"
    then consider "startswith (c # cs) sub" | "py_in sub cs" by auto
    then show "\<exists>a b. c # cs = a @ sub @ b"
    proof cases
      case 1
      then obtain r where "c # cs = sub @ r" by (auto simp: startswith_iff)
      then have "c # cs = [] @ sub @ r" by simp
      then show ?thesis by blast
    next
      case 2
      then obtain a b where "cs = a @ sub @ b" using Cons.IH by blast
      then have "c # cs = (c # a) @ sub @ b" by simp
      then show ?thesis by blast
    qed
  next
    assume "\<exists>a b. c # cs = a @ sub @ b"
    then obtain a b where ab: "c # cs = a @ sub @ b" by blast
    show "py_in sub (c # cs)"
    proof (cases a)
      case Nil
      then have "startswith (c # cs) sub" using ab by (auto simp: startswith_iff)
      then show ?thesis by simp
    next
      case (Cons x a')
      then have "cs = a' @ sub @ b" using ab by simp
      then have "py_in sub cs" using Cons.IH by blast
      then show ?thesis by simp
    qed
  qed
qed

lemma py_in_lower_iff:
  "py_in sub (lower n) \<longleftrightarrow> (\<exists>pre mid post. n = pre @ mid @ post \<and> lower mid = sub)"
proof
  assume "py_in sub (lower n)"
  then obtain a b where "map lower_char n = a @ (sub @ b)"
    by (auto simp: py_in_iff lower_def)
  then obtain pre rest where 1: "n = pre @ rest" "map lower_char rest = sub @ b"
    by (metis map_eq_append_conv)
  then obtain mid post where 2: "rest = mid @ post" "map lower_char mid = sub"
    by (metis map_eq_append_conv)
  from 1 2 have "n = pre @ mid @ post \<and> lower mid = sub"
    by (simp add: lower_def)
  then show "\<exists>pre mid post. n = pre @ mid @ post \<and> lower mid = sub"
    by blast
next
  assume "\<exists>pre mid post. n = pre @ mid @ post \<and> lower mid = sub"
  then obtain pre mid post where "n = pre @ mid @ post" "lower mid = sub" by blast
  then have "lower n = lower pre @ sub @ lower post" by (auto simp: lower_def)
  then show "py_in sub (lower n)" unfolding py_in_iff by blast
qed

lemma map_of_filter_fst:
  "map_of (filter (\<lambda>e. P (fst e)) xs) k = (if P k then map_of xs k else None)"
  by (induction xs) auto

lemma zf_read_filter:
  "zf_read (filter (\<lambda>e. P (fst e)) zf) name = (if P name then zf_read zf name else None)"
  by (simp add: zf_read_def rev_filter map_of_filter_fst)

lemma extract_loop_cong:
  "(\<And>n. n \<in> set names \<Longrightarrow> zf_read zf n = zf_read zf' n) \<Longrightarrow>
   extract_loop g zf m names parts tot = extract_loop g zf' m names parts tot"
  by (induction names arbitrary: parts tot) (auto split: option.splits)

lemma html_files_filter:
  "html_files (filter (\<lambda>e. \<not> py_in ''toc'' (lower (fst e))) zf) = html_files zf"
  by (induction zf) (auto simp: html_files_def namelist_def)

lemma html_files_no_toc: "n \<in> set (html_files zf) \<Longrightarrow> \<not> py_in ''toc'' (lower n)"
  by (auto simp: html_files_def)

lemma extract_text_filter:
  "extract_text_from_epub g (Some (filter (\<lambda>e. \<not> py_in ''toc'' (lower (fst e))) zf)) m
   = extract_text_from_epub g (Some zf) m"
proof -
  let ?zf' = "filter (\<lambda>e. \<not> py_in ''toc'' (lower (fst e))) zf"
  have "extract_loop g ?zf' m (sort (html_files zf)) [] 0
        = extract_loop g zf m (sort (html_files zf)) [] 0"
    by (rule extract_loop_cong)
       (simp add: zf_read_filter [where P = "\<lambda>n. \<not> py_in ''toc'' (lower n)"] html_files_no_toc)
  then show ?thesis
    by (simp add: extract_text_from_epub_def html_files_filter)
qed

subsection \<open>The content filter of text extraction\<close>

text \<open>
  C2, as the specification states it, fails: the filter is not case-sensitive. The
  source lowercases the entry name before it looks for \<^verbatim>\<open>toc\<close>, so the entry
  \<^verbatim>\<open>TOC.xhtml\<close>, which contains \<^verbatim>\<open>toc\<close> only in another capitalisation, is excluded
  and contributes no text. (And \<^verbatim>\<open>stock.xhtml\<close> does contain \<^verbatim>\<open>toc\<close>.)
\<close>

theorem toc_filter_counterexample:
  "\<not> py_in ''toc'' ''TOC.xhtml''
   \<and> endswith ''TOC.xhtml'' ''.xhtml''
   \<and> html_files [(''TOC.xhtml'', ''Contents'')] = []
   \<and> extract_text_from_epub Some (Some [(''TOC.xhtml'', ''Contents'')]) 500000 = []
   \<and> py_in ''toc'' ''stock.xhtml''"
  by code_simp

text \<open>
  C2, amended. The filter is a substring check that ignores case: an entry is a content
  document exactly when its name ends in \<^verbatim>\<open>.html\<close>, \<^verbatim>\<open>.xhtml\<close> or \<^verbatim>\<open>.htm\<close> and no
  substring of the name is \<^verbatim>\<open>toc\<close> in any capitalisation. Entries whose name has such
  a substring never contribute: removing them from the archive leaves the extracted text
  unchanged. So \<^verbatim>\<open>TOC.xhtml\<close>, \<^verbatim>\<open>stock.xhtml\<close> and \<^verbatim>\<open>protocol.xhtml\<close> are all excluded.
\<close>

theorem toc_filter_ignores_case:
  "(n \<in> set (html_files zf) \<longleftrightarrow>
      n \<in> set (namelist zf)
      \<and> (endswith n ''.html'' \<or> endswith n ''.xhtml'' \<or> endswith n ''.htm'')
      \<and> \<not> (\<exists>pre mid post. n = pre @ mid @ post \<and> lower mid = ''toc''))
   \<and> extract_text_from_epub get_text
         (Some (filter (\<lambda>e. \<not> (\<exists>pre mid post. fst e = pre @ mid @ post \<and> lower mid = ''toc'')) zf))
         max_chars
       = extract_text_from_epub get_text (Some zf) max_chars
   \<and> html_files [(''TOC.xhtml'', b1), (''stock.xhtml'', b2), (''protocol.xhtml'', b3),
                  (''chapter.xhtml'', b4), (''notes.txt'', b5)] = [''chapter.xhtml'']"
proof (intro conjI)
  show "n \<in> set (html_files zf) \<longleftrightarrow>
      n \<in> set (namelist zf)
      \<and> (endswith n ''.html'' \<or> endswith n ''.xhtml'' \<or> endswith n ''.htm'')
      \<and> \<not> (\<exists>pre mid post. n = pre @ mid @ post \<and> lower mid = ''toc'')"
    unfolding py_in_lower_iff [symmetric] by (auto simp: html_files_def)
  show "extract_text_from_epub get_text
         (Some (filter (\<lambda>e. \<not> (\<exists>pre mid post. fst e = pre @ mid @ post \<and> lower mid = ''toc'')) zf))
         max_chars
       = extract_text_from_epub get_text (Some zf) max_chars"
    unfolding py_in_lower_iff [symmetric] by (rule extract_text_filter)
  show "html_files [(''TOC.xhtml'', b1), (''stock.xhtml'', b2), (''protocol.xhtml'', b3),
                  (''chapter.xhtml'', b4), (''notes.txt'', b5)] = [''chapter.xhtml'']"
    by code_simp
qed

theorem toc_filter_ignores_case_witness:
  "(\<exists>pre mid post. ''TOC.xhtml'' = pre @ mid @ post \<and> lower mid = ''toc'')
   \<and> extract_text_from_epub Some
        (Some [(''TOC.xhtml'', ''Contents''), (''ch1.xhtml'', ''Call me Ishmael'')]) 500000
       = ''Call me Ishmael''"
proof -
  have 1: "''TOC.xhtml'' \<notin> set (html_files [(''TOC.xhtml'', ''Contents''), (''ch1.xhtml'', ''Call me Ishmael'')])"
    by code_simp
  have 2: "''TOC.xhtml'' \<in> set (namelist [(''TOC.xhtml'', ''Contents''), (''ch1.xhtml'', ''Call me Ishmael'')])"
    by code_simp
  have 3: "endswith ''TOC.xhtml'' ''.xhtml''"
    by code_simp
  have 4: "extract_text_from_epub Some
        (Some [(''TOC.xhtml'', ''Contents''), (''ch1.xhtml'', ''Call me Ishmael'')]) 500000
       = ''Call me Ishmael''"
    by code_simp
  note t = toc_filter_ignores_case
         [of "''TOC.xhtml''" "[(''TOC.xhtml'', ''Contents''), (''ch1.xhtml'', ''Call me Ishmael'')]",
          THEN conjunct1]
  from t 1 2 3 have "\<exists>pre mid post. ''TOC.xhtml'' = pre @ mid @ post \<and> lower mid = ''toc''"
    by blast
  then show ?thesis using 4 by (rule conjI)
qed

subsection \<open>Splitting and joining words\<close>

lemma split_acc_nonspace:
  "\<forall>c\<in>set w. \<not> is_space c \<Longrightarrow> split_acc cur (w @ rest) = split_acc (cur @ w) rest"
  by (induction w arbitrary: cur) auto

lemma split_acc_words:
  "\<forall>c\<in>set cur. \<not> is_space c \<Longrightarrow> w \<in> set (split_acc cur s) \<Longrightarrow>
   w \<noteq> [] \<and> (\<forall>c\<in>set w. \<not> is_space c)"
proof (induction s arbitrary: cur)
  case Nil
  then show ?case by (auto split: if_splits)
next
  case (Cons a s)
  show ?case
  proof (cases "is_space a")
    case True
    then have "w = cur \<and> cur \<noteq> [] \<or> w \<in> set (split_acc [] s)"
      using Cons.prems(2) by (auto split: if_splits)
    then show ?thesis
    proof
      assume "w = cur \<and> cur \<noteq> []"
      then show ?thesis using Cons.prems(1) by simp
    next
      assume "w \<in> set (split_acc [] s)"
      then show ?thesis using Cons.IH [of "[]"] by simp
    qed
  next
    case False
    then have "w \<in> set (split_acc (cur @ [a]) s)"
      using Cons.prems(2) by simp
    moreover have "\<forall>c\<in>set (cur @ [a]). \<not> is_space c"
      using Cons.prems(1) False by simp
    ultimately show ?thesis using Cons.IH [of "cur @ [a]"] by blast
  qed
qed

lemma py_split_words:
  "w \<in> set (py_split s) \<Longrightarrow> w \<noteq> [] \<and> (\<forall>c\<in>set w. \<not> is_space c)"
  unfolding py_split_def using split_acc_words [of "[]" w s] by simp

lemma split_acc_Nil_iff:
  "split_acc cur s = [] \<longleftrightarrow> cur = [] \<and> (\<forall>c\<in>set s. is_space c)"
  by (induction s arbitrary: cur) auto

lemma py_split_Nil_iff: "py_split s = [] \<longleftrightarrow> (\<forall>c\<in>set s. is_space c)"
  by (simp add: py_split_def split_acc_Nil_iff)

lemma is_space_blank: "is_space CHR '' ''"
  by (simp add: is_space_def)

lemma split_acc_join:
  "\<forall>w\<in>set ws. w \<noteq> [] \<and> (\<forall>c\<in>set w. \<not> is_space c) \<Longrightarrow>
   \<forall>c\<in>set cur. \<not> is_space c \<Longrightarrow> cur \<noteq> [] \<or> ws \<noteq> [] \<Longrightarrow>
   split_acc cur (join_sp ws) = (case ws of [] \<Rightarrow> [cur] | w # ws' \<Rightarrow> (cur @ w) # ws')"
proof (induction ws arbitrary: cur rule: join_sp.induct)
  case 1
  then show ?case by simp
next
  case (2 x)
  then show ?case
    using split_acc_nonspace [of x cur "[]"] by simp
next
  case (3 x y ys)
  have "split_acc cur (x @ CHR '' '' # join_sp (y # ys))
        = split_acc (cur @ x) (CHR '' '' # join_sp (y # ys))"
    using 3 split_acc_nonspace [of x cur] by simp
  also have "\<dots> = (cur @ x) # split_acc [] (join_sp (y # ys))"
    using 3 by (simp add: is_space_blank)
  also have "split_acc [] (join_sp (y # ys)) = y # ys"
    using "3.IH" [of "[]"] 3 by simp
  finally show ?case by simp
qed

lemma py_split_join:
  "\<forall>w\<in>set ws. w \<noteq> [] \<and> (\<forall>c\<in>set w. \<not> is_space c) \<Longrightarrow> py_split (join_sp ws) = ws"
proof (cases ws)
  case Nil
  then show ?thesis by (simp add: py_split_def)
next
  case (Cons w ws')
  assume "\<forall>w\<in>set ws. w \<noteq> [] \<and> (\<forall>c\<in>set w. \<not> is_space c)"
  then show ?thesis
    using split_acc_join [of ws "[]"] Cons by (simp add: py_split_def)
qed

lemma py_split_idem: "py_split (join_sp (py_split s)) = py_split s"
  by (rule py_split_join) (use py_split_words in blast)

lemma join_sp_Nil_iff: "\<forall>w\<in>set ws. w \<noteq> [] \<Longrightarrow> join_sp ws = [] \<longleftrightarrow> ws = []"
  by (induction ws rule: join_sp.induct) auto

lemma py_split_normalize:
  "py_split (normalize_str s) = py_split (filter (\<lambda>c. is_word c \<or> is_space c) (lower s))"
  by (simp add: normalize_str_def py_split_idem) (simp add: py_split_def lower_def)

lemma word_not_space: "is_word c \<Longrightarrow> \<not> is_space c"
  by (auto simp: is_word_def is_space_def Let_def)

lemma is_word_lower_char: "is_word (lower_char c) = is_word c"
  by (auto simp: is_word_def lower_char_def Let_def)

lemma normalize_Nil_iff: "normalize_str s = [] \<longleftrightarrow> (\<forall>c\<in>set s. \<not> is_word c)"
proof -
  have "normalize_str s = [] \<longleftrightarrow> py_split (normalize_str s) = []"
  proof
    assume "normalize_str s = []" then show "py_split (normalize_str s) = []"
      by (simp add: py_split_def)
  next
    assume "py_split (normalize_str s) = []"
    then have "py_split (filter (\<lambda>c. is_word c \<or> is_space c) (lower s)) = []"
      by (simp add: py_split_normalize)
    then show "normalize_str s = []" by (simp add: normalize_str_def)
  qed
  also have "\<dots> \<longleftrightarrow> (\<forall>c\<in>set (lower s). \<not> is_word c)"
    by (auto simp: py_split_normalize py_split_Nil_iff dest: word_not_space)
  also have "\<dots> \<longleftrightarrow> (\<forall>c\<in>set s. \<not> is_word c)"
    by (simp add: lower_def is_word_lower_char)
  finally show ?thesis .
qed


lemma title_match_iff:
  "title_match (verify_metadata expected_title expected_author actual_metadata) \<longleftrightarrow>
     truthy (title actual_metadata) \<and> truthy (author actual_metadata)
     \<and> normalize_str expected_title \<noteq> []
     \<and> normalize_str (get_or_empty (title actual_metadata)) \<noteq> []
     \<and> card (set (py_split (normalize_str expected_title))
             \<inter> set (py_split (normalize_str (get_or_empty (title actual_metadata)))))
         \<ge> min 2 (card (set (py_split (normalize_str expected_title))))"
  by (auto simp: verify_metadata_def Let_def)

lemma author_match_iff:
  "author_match (verify_metadata expected_title expected_author actual_metadata) \<longleftrightarrow>
     truthy (title actual_metadata) \<and> truthy (author actual_metadata)
     \<and> normalize_str expected_author \<noteq> []
     \<and> normalize_str (get_or_empty (author actual_metadata)) \<noteq> []
     \<and> list_ex (\<lambda>ep. length ep > 2
                  \<and> list_ex (\<lambda>ap. length ap > 2 \<and> (py_in ep ap \<or> py_in ap ep))
                       (py_split (normalize_str (get_or_empty (author actual_metadata)))))
          (py_split (normalize_str expected_author))"
  by (auto simp: verify_metadata_def Let_def)

lemma normalize_Nil_iff_words: "normalize_str s = [] \<longleftrightarrow> set (py_split (normalize_str s)) = {}"
proof
  assume "normalize_str s = []" then show "set (py_split (normalize_str s)) = {}"
    by (simp add: py_split_def)
next
  assume "set (py_split (normalize_str s)) = {}"
  then have "py_split (filter (\<lambda>c. is_word c \<or> is_space c) (lower s)) = []"
    by (simp add: py_split_normalize)
  then show "normalize_str s = []" by (simp add: normalize_str_def)
qed

lemma py_in_refl: "py_in s s"
proof -
  have "s = [] @ s @ []" by simp
  then show ?thesis unfolding py_in_iff by blast
qed

subsection \<open>Matching on exact input\<close>

text \<open>
  C3, as the specification states it, fails: a non-empty title without any letter or digit
  normalises to the empty string, and the title guard then leaves the flag false; an
  author whose name parts all have at most two characters never passes the length test
  of the author rule.
\<close>

theorem exact_match_counterexample:
  "\<not> title_match (verify_metadata ''???'' ''Anonymous''
                      \<lparr>title = Some ''???'', author = Some ''Anonymous''\<rparr>)
   \<and> \<not> author_match (verify_metadata ''Poems'' ''Li Po''
                         \<lparr>title = Some ''Poems'', author = Some ''Li Po''\<rparr>)"
  by code_simp

text \<open>
  C3, amended. For non-empty strings T and A, matching T and A against the metadata with
  title T and author A gives a true title flag exactly when T has at least one word
  character (a letter, a digit or an underscore), and a true author flag exactly when
  the normalised A (lowercased, characters other than word characters and whitespace
  removed) has a word of more than two characters.
\<close>

theorem exact_match:
  "T \<noteq> [] \<Longrightarrow> A \<noteq> [] \<Longrightarrow>
   (title_match (verify_metadata T A \<lparr>title = Some T, author = Some A\<rparr>)
      \<longleftrightarrow> (\<exists>c\<in>set T. is_word c))
   \<and> (author_match (verify_metadata T A \<lparr>title = Some T, author = Some A\<rparr>)
      \<longleftrightarrow> (\<exists>w\<in>set (py_split (filter (\<lambda>c. is_word c \<or> is_space c) (lower A))). length w > 2))"
proof
  assume ne: "T \<noteq> []" "A \<noteq> []"
  show "title_match (verify_metadata T A \<lparr>title = Some T, author = Some A\<rparr>)
      \<longleftrightarrow> (\<exists>c\<in>set T. is_word c)"
    using ne by (auto simp: title_match_iff truthy_def get_or_empty_def normalize_Nil_iff)
  let ?ws = "py_split (filter (\<lambda>c. is_word c \<or> is_space c) (lower A))"
  have ws: "py_split (normalize_str A) = ?ws" by (rule py_split_normalize)
  have "normalize_str A \<noteq> []" if "w \<in> set ?ws" for w
    using that normalize_Nil_iff_words [of A] ws by auto
  moreover have "list_ex (\<lambda>ep. length ep > 2
                  \<and> list_ex (\<lambda>ap. length ap > 2 \<and> (py_in ep ap \<or> py_in ap ep)) ?ws) ?ws
        \<longleftrightarrow> (\<exists>w\<in>set ?ws. length w > 2)"
    unfolding list_ex_iff using py_in_refl by blast
  ultimately show "author_match (verify_metadata T A \<lparr>title = Some T, author = Some A\<rparr>)
      \<longleftrightarrow> (\<exists>w\<in>set ?ws. length w > 2)"
    using ne by (auto simp: author_match_iff truthy_def get_or_empty_def ws)
qed

theorem exact_match_witness:
  "title_match (verify_metadata ''Moby Dick'' ''Herman Melville''
                  \<lparr>title = Some ''Moby Dick'', author = Some ''Herman Melville''\<rparr>)
   \<and> author_match (verify_metadata ''Moby Dick'' ''Herman Melville''
                     \<lparr>title = Some ''Moby Dick'', author = Some ''Herman Melville''\<rparr>)"
proof -
  have 1: "''Moby Dick'' \<noteq> []" and 2: "''Herman Melville'' \<noteq> []"
    by simp_all
  have 3: "\<exists>c\<in>set ''Moby Dick''. is_word c"
    by code_simp
  have 4: "\<exists>w\<in>set (py_split (filter (\<lambda>c. is_word c \<or> is_space c) (lower ''Herman Melville''))).
             length w > 2"
    by code_simp
  from exact_match [OF 1 2] 3 4 show ?thesis by blast
qed

subsection \<open>The title rule\<close>

lemma is_word_alphanumeric: "is_word c \<longleftrightarrow> spec_alphanumeric c \<or> c = CHR ''_''"
proof (cases c)
  case (Char b0 b1 b2 b3 b4 b5 b6 b7)
  show ?thesis
    unfolding Char
    by (cases b0; cases b1; cases b2; cases b3; cases b4; cases b5; cases b6; cases b7;
        simp add: is_word_def spec_alphanumeric_def)
qed

text \<open>
  C4, as the specification states it, fails in three ways. When the expected title
  normalises to the empty string its word set is empty, the intersection has size 0,
  which is at least min(2, 0), and yet the guard of the source leaves the title flag
  false. The normalisation keeps the underscore, which is not alphanumeric: the titles
  \<^verbatim>\<open>snake_case\<close> and \<^verbatim>\<open>snakecase\<close> have the same word set once every character that is
  neither alphanumeric nor whitespace is removed, and the title flag is false. And an
  actual author that is present but empty leaves the title flag false for equal titles.
\<close>

theorem title_rule_counterexample:
  "\<not> title_match (verify_metadata ''???'' ''Herman Melville''
                      \<lparr>title = Some ''Moby Dick'', author = Some ''Herman Melville''\<rparr>)
   \<and> card (set (py_split (normalize_str ''???'')) \<inter> set (py_split (normalize_str ''Moby Dick'')))
       \<ge> min 2 (card (set (py_split (normalize_str ''???''))))
   \<and> \<not> title_match (verify_metadata ''snake_case'' ''Guido''
                      \<lparr>title = Some ''snakecase'', author = Some ''Guido''\<rparr>)
   \<and> set (py_split (filter (\<lambda>c. spec_alphanumeric c \<or> is_space c) (lower ''snake_case'')))
       = set (py_split (filter (\<lambda>c. spec_alphanumeric c \<or> is_space c) (lower ''snakecase'')))
   \<and> set (py_split (filter (\<lambda>c. spec_alphanumeric c \<or> is_space c) (lower ''snake_case''))) \<noteq> {}
   \<and> \<not> title_match (verify_metadata ''Moby Dick'' ''Herman Melville''
                      \<lparr>title = Some ''Moby Dick'', author = Some []\<rparr>)"
  by code_simp

text \<open>
  C4, amended. With both actual metadata fields present and not empty, and the titles
  normalised (lowercased, every character removed that is neither a word character, that
  is a letter, a digit or the underscore, nor whitespace, and split at whitespace), the
  title flag is true exactly when the expected word set is not empty and its intersection
  with the actual word set has at least min(2, size of the expected word set) elements.
  When an actual field is absent or empty the title flag is false. For the expected title
  "The Adventures of Tom Sawyer" by "Mark Twain" and the actual title "Adventures of Tom
  Sawyer" by "Samuel Clemens" the title flag is true and the author flag is false. The
  expected title \<^verbatim>\<open>MOBY-DICK!\<close> matches the actual title \<^verbatim>\<open>mobydick\<close>, and \<^verbatim>\<open>snake_case\<close> does
  not match \<^verbatim>\<open>snakecase\<close>.
\<close>

theorem title_rule:
  "(title actual_metadata = Some t \<and> t \<noteq> []
      \<and> author actual_metadata = Some a \<and> a \<noteq> []
      \<and> expected_words
          = set (py_split (filter (\<lambda>c. is_word c \<or> is_space c) (lower expected_title)))
      \<and> actual_words
          = set (py_split (filter (\<lambda>c. is_word c \<or> is_space c) (lower t))) \<longrightarrow>
      (title_match (verify_metadata expected_title expected_author actual_metadata) \<longleftrightarrow>
         expected_words \<noteq> {}
         \<and> card (expected_words \<inter> actual_words) \<ge> min 2 (card expected_words)))
   \<and> (title actual_metadata = None \<or> title actual_metadata = Some []
      \<or> author actual_metadata = None \<or> author actual_metadata = Some [] \<longrightarrow>
      \<not> title_match (verify_metadata expected_title expected_author actual_metadata))
   \<and> (is_word c \<longleftrightarrow> spec_alphanumeric c \<or> c = CHR ''_'')
   \<and> title_match (verify_metadata ''The Adventures of Tom Sawyer'' ''Mark Twain''
                    \<lparr>title = Some ''Adventures of Tom Sawyer'', author = Some ''Samuel Clemens''\<rparr>)
   \<and> \<not> author_match (verify_metadata ''The Adventures of Tom Sawyer'' ''Mark Twain''
                    \<lparr>title = Some ''Adventures of Tom Sawyer'', author = Some ''Samuel Clemens''\<rparr>)
   \<and> title_match (verify_metadata ''MOBY-DICK!'' ''Herman Melville''
                    \<lparr>title = Some ''mobydick'', author = Some ''Melville''\<rparr>)
   \<and> \<not> title_match (verify_metadata ''snake_case'' ''Guido''
                    \<lparr>title = Some ''snakecase'', author = Some ''Guido''\<rparr>)"
proof (intro conjI impI)
  assume a: "title actual_metadata = Some t \<and> t \<noteq> []
      \<and> author actual_metadata = Some a \<and> a \<noteq> []
      \<and> expected_words
          = set (py_split (filter (\<lambda>c. is_word c \<or> is_space c) (lower expected_title)))
      \<and> actual_words
          = set (py_split (filter (\<lambda>c. is_word c \<or> is_space c) (lower t)))"
  then have t: "truthy (title actual_metadata)" "truthy (author actual_metadata)"
    and g: "get_or_empty (title actual_metadata) = t"
    by (simp_all add: truthy_def get_or_empty_def)
  let ?E = "set (py_split (normalize_str expected_title))"
  let ?A = "set (py_split (normalize_str (get_or_empty (title actual_metadata))))"
  have E: "expected_words = ?E" and A: "actual_words = ?A"
    using a by (simp_all add: py_split_normalize get_or_empty_def)
  have "normalize_str (get_or_empty (title actual_metadata)) \<noteq> []"
    if "?E \<noteq> {}" "card (?E \<inter> ?A) \<ge> min 2 (card ?E)"
  proof -
    have "card ?E \<ge> 1" using that(1) by (simp add: card_gt_0_iff Suc_le_eq)
    then have "card (?E \<inter> ?A) \<ge> 1" using that(2) by simp
    then have "?E \<inter> ?A \<noteq> {}" by auto
    then have "?A \<noteq> {}" by auto
    then show ?thesis using normalize_Nil_iff_words by blast
  qed
  then show "title_match (verify_metadata expected_title expected_author actual_metadata) \<longleftrightarrow>
         expected_words \<noteq> {}
         \<and> card (expected_words \<inter> actual_words) \<ge> min 2 (card expected_words)"
    using t normalize_Nil_iff_words [of expected_title]
    unfolding title_match_iff E A by blast
next
  assume "title actual_metadata = None \<or> title actual_metadata = Some []
      \<or> author actual_metadata = None \<or> author actual_metadata = Some []"
  then have "\<not> truthy (title actual_metadata) \<or> \<not> truthy (author actual_metadata)"
    by (auto simp: truthy_def)
  then show "\<not> title_match (verify_metadata expected_title expected_author actual_metadata)"
    unfolding title_match_iff by blast
next
  show "is_word c \<longleftrightarrow> spec_alphanumeric c \<or> c = CHR ''_''"
    by (rule is_word_alphanumeric)
next
  show "title_match (verify_metadata ''The Adventures of Tom Sawyer'' ''Mark Twain''
                    \<lparr>title = Some ''Adventures of Tom Sawyer'', author = Some ''Samuel Clemens''\<rparr>)"
    by code_simp
next
  show "\<not> author_match (verify_metadata ''The Adventures of Tom Sawyer'' ''Mark Twain''
                    \<lparr>title = Some ''Adventures of Tom Sawyer'', author = Some ''Samuel Clemens''\<rparr>)"
    by code_simp
next
  show "title_match (verify_metadata ''MOBY-DICK!'' ''Herman Melville''
                    \<lparr>title = Some ''mobydick'', author = Some ''Melville''\<rparr>)"
    by code_simp
next
  show "\<not> title_match (verify_metadata ''snake_case'' ''Guido''
                    \<lparr>title = Some ''snakecase'', author = Some ''Guido''\<rparr>)"
    by code_simp
qed

theorem title_rule_witness:
  "set (py_split (filter (\<lambda>c. is_word c \<or> is_space c) (lower ''Moby-Dick; or, The Whale'')))
     = {''mobydick'', ''or'', ''the'', ''whale''}
   \<and> set (py_split (filter (\<lambda>c. is_word c \<or> is_space c) (lower ''Moby Dick or The Whale'')))
     = {''moby'', ''dick'', ''or'', ''the'', ''whale''}
   \<and> title_match (verify_metadata ''Moby-Dick; or, The Whale'' ''Herman Melville''
                    \<lparr>title = Some ''Moby Dick or The Whale'', author = Some ''Melville, Herman''\<rparr>)"
proof -
  let ?m = "\<lparr>title = Some ''Moby Dick or The Whale'', author = Some ''Melville, Herman''\<rparr>"
  let ?E = "set (py_split (filter (\<lambda>c. is_word c \<or> is_space c) (lower ''Moby-Dick; or, The Whale'')))"
  let ?A = "set (py_split (filter (\<lambda>c. is_word c \<or> is_space c) (lower ''Moby Dick or The Whale'')))"
  have 1: "title ?m = Some ''Moby Dick or The Whale'' \<and> ''Moby Dick or The Whale'' \<noteq> []
      \<and> author ?m = Some ''Melville, Herman'' \<and> ''Melville, Herman'' \<noteq> []
      \<and> ?E = ?E \<and> ?A = ?A"
    by simp
  have e: "py_split (filter (\<lambda>c. is_word c \<or> is_space c) (lower ''Moby-Dick; or, The Whale''))
           = [''mobydick'', ''or'', ''the'', ''whale'']"
    by code_simp
  have a: "py_split (filter (\<lambda>c. is_word c \<or> is_space c) (lower ''Moby Dick or The Whale''))
           = [''moby'', ''dick'', ''or'', ''the'', ''whale'']"
    by code_simp
  have 2: "?E \<noteq> {}" unfolding e by simp
  have "?E \<inter> ?A = {''or'', ''the'', ''whale''}" unfolding e a by auto
  then have "card (?E \<inter> ?A) = 3" by simp
  then have 3: "card (?E \<inter> ?A) \<ge> min 2 (card ?E)" by simp
  from title_rule [of ?m "''Moby Dick or The Whale''" "''Melville, Herman''" ?E
      "''Moby-Dick; or, The Whale''" ?A "''Herman Melville''", THEN conjunct1, rule_format, OF 1]
    2 3
  have "title_match (verify_metadata ''Moby-Dick; or, The Whale'' ''Herman Melville'' ?m)"
    by blast
  then show ?thesis unfolding e a by simp
qed

subsection \<open>Language detection\<close>

lemma max_key_from_first_max:
  "\<exists>pre v post. best # xs = pre @ (max_key_from best xs, v) # post
     \<and> (\<forall>p\<in>set pre. snd p < v) \<and> (\<forall>p\<in>set post. snd p \<le> v)"
proof (induction xs arbitrary: best)
  case Nil
  show ?case
    by (rule exI [of _ "[]"], rule exI [of _ "snd best"], rule exI [of _ "[]"]) simp
next
  case (Cons x xs)
  show ?case
  proof (cases "snd x > snd best")
    case True
    then have mk: "max_key_from best (x # xs) = max_key_from x xs" by simp
    from Cons.IH [of x] obtain pre v post where
      s: "x # xs = pre @ (max_key_from x xs, v) # post"
      and lt: "\<forall>p\<in>set pre. snd p < v" and le: "\<forall>p\<in>set post. snd p \<le> v"
      by blast
    have hx: "hd (pre @ (max_key_from x xs, v) # post) = x"
      unfolding s [symmetric] by simp
    have "snd x \<le> v"
    proof (cases pre)
      case Nil
      then show ?thesis using hx by (auto simp: prod_eq_iff)
    next
      case (Cons p pre')
      then have "x \<in> set pre" using hx by simp
      then show ?thesis using lt by auto
    qed
    then have bv: "snd best < v" using True by simp
    show ?thesis
    proof (intro exI conjI)
      show "best # x # xs = (best # pre) @ (max_key_from best (x # xs), v) # post"
        unfolding mk by (simp add: s [symmetric])
      show "\<forall>p\<in>set (best # pre). snd p < v" using bv lt by simp
      show "\<forall>p\<in>set post. snd p \<le> v" by (rule le)
    qed
  next
    case False
    then have mk: "max_key_from best (x # xs) = max_key_from best xs" by simp
    from Cons.IH [of best] obtain pre v post where
      s: "best # xs = pre @ (max_key_from best xs, v) # post"
      and lt: "\<forall>p\<in>set pre. snd p < v" and le: "\<forall>p\<in>set post. snd p \<le> v"
      by blast
    have h: "hd (pre @ (max_key_from best xs, v) # post) = best"
      unfolding s [symmetric] by simp
    have t: "tl (pre @ (max_key_from best xs, v) # post) = xs"
      unfolding s [symmetric] by simp
    show ?thesis
    proof (cases pre)
      case Nil
      have b2: "snd best = v" and b1: "fst best = max_key_from best xs"
        using h Nil by (auto simp: prod_eq_iff)
      have b3: "post = xs" using t Nil by simp
      show ?thesis
      proof (intro exI conjI)
        show "best # x # xs = [] @ (max_key_from best (x # xs), v) # (x # post)"
          unfolding mk using b1 b2 b3 by (simp add: prod_eq_iff)
        show "\<forall>p\<in>set []. snd p < v" by simp
        show "\<forall>p\<in>set (x # post). snd p \<le> v" using le False b2 by simp
      qed
    next
      case (Cons p pre')
      have pb: "p = best" using h Cons by simp
      have t2: "pre' @ (max_key_from best xs, v) # post = xs" using t Cons by simp
      have "best \<in> set pre" using Cons pb by simp
      then have bv: "snd best < v" using lt by blast
      have pl: "\<forall>q\<in>set pre'. snd q < v" using lt Cons by simp
      show ?thesis
      proof (intro exI conjI)
        show "best # x # xs = (best # x # pre') @ (max_key_from best (x # xs), v) # post"
          unfolding mk by (simp add: t2)
        show "\<forall>q\<in>set (best # x # pre'). snd q < v" using bv pl False by simp
        show "\<forall>p\<in>set post. snd p \<le> v" by (rule le)
      qed
    qed
  qed
qed

lemma map_split:
  "map f xs = pre' @ y # post' \<Longrightarrow>
   \<exists>pre x post. xs = pre @ x # post \<and> map f pre = pre' \<and> f x = y \<and> map f post = post'"
proof (induction pre' arbitrary: xs)
  case Nil
  then obtain x post where "xs = x # post" "f x = y" "map f post = post'"
    by (cases xs) auto
  then have "xs = [] @ x # post \<and> map f [] = [] \<and> f x = y \<and> map f post = post'" by simp
  then show ?case by (intro exI)
next
  case (Cons a pre')
  then obtain z zs where xs: "xs = z # zs" "f z = a" "map f zs = pre' @ y # post'"
    by (cases xs) auto
  from Cons.IH [OF xs(3)] obtain pre x post where
    "zs = pre @ x # post" "map f pre = pre'" "f x = y" "map f post = post'"
    by blast
  then have "xs = (z # pre) @ x # post \<and> map f (z # pre) = a # pre' \<and> f x = y
             \<and> map f post = post'"
    using xs by simp
  then show ?case by (intro exI)
qed

lemma py_max_key_map:
  assumes "tbl \<noteq> []"
  shows "\<exists>pre k a post. tbl = pre @ (k, a) # post
           \<and> py_max_key (map (\<lambda>p. (fst p, g (snd p))) tbl) = Inr k
           \<and> (\<forall>p\<in>set pre. g (snd p) < g a) \<and> (\<forall>p\<in>set post. g (snd p) \<le> g a)"
proof -
  let ?f = "\<lambda>p. (fst p, g (snd p))"
  obtain m ms where ms: "tbl = m # ms" using assms by (cases tbl) auto
  have pm: "py_max_key (map ?f tbl) = Inr (max_key_from (?f m) (map ?f ms))"
    by (simp add: ms)
  define r where "r = max_key_from (?f m) (map ?f ms)"
  from max_key_from_first_max [of "?f m" "map ?f ms"] obtain pre' v post' where
    s: "?f m # map ?f ms = pre' @ (r, v) # post'"
    and lt: "\<forall>p\<in>set pre'. snd p < v" and le: "\<forall>p\<in>set post'. snd p \<le> v"
    unfolding r_def by blast
  have "map ?f tbl = pre' @ (r, v) # post'" using s by (simp add: ms)
  from map_split [OF this] obtain pre x post where
    t: "tbl = pre @ x # post" and p1: "map ?f pre = pre'" and fx: "?f x = (r, v)"
    and p2: "map ?f post = post'"
    by blast
  have xr: "fst x = r" and xv: "g (snd x) = v" using fx by simp_all
  have a: "\<forall>p\<in>set pre. g (snd p) < g (snd x)"
  proof
    fix p assume "p \<in> set pre"
    then have "?f p \<in> set pre'" unfolding p1 [symmetric] by simp
    then have "snd (?f p) < v" using lt by blast
    then show "g (snd p) < g (snd x)" using xv by simp
  qed
  have b: "\<forall>p\<in>set post. g (snd p) \<le> g (snd x)"
  proof
    fix p assume "p \<in> set post"
    then have "?f p \<in> set post'" unfolding p2 [symmetric] by simp
    then have "snd (?f p) \<le> v" using le by blast
    then show "g (snd p) \<le> g (snd x)" using xv by simp
  qed
  have t': "tbl = pre @ (fst x, snd x) # post" using t by simp
  have pm': "py_max_key (map ?f tbl) = Inr (fst x)" unfolding pm xr r_def ..
  from t' pm' a b
  have "tbl = pre @ (fst x, snd x) # post
        \<and> py_max_key (map ?f tbl) = Inr (fst x)
        \<and> (\<forall>p\<in>set pre. g (snd p) < g (snd x)) \<and> (\<forall>p\<in>set post. g (snd p) \<le> g (snd x))"
    by (intro conjI)
  then show ?thesis by (intro exI)
qed

lemma detect_language_split:
  "\<exists>pre lang words post.
       lang_markers = pre @ (lang, words) # post
     \<and> detect_language text = Inr lang
     \<and> (\<forall>p\<in>set pre. marker_score (lower text) (snd p) < marker_score (lower text) words)
     \<and> (\<forall>p\<in>set post. marker_score (lower text) (snd p) \<le> marker_score (lower text) words)"
proof -
  have ne: "lang_markers \<noteq> []" by (simp add: lang_markers_def)
  have "detect_language text
        = py_max_key (map (\<lambda>p. (fst p, marker_score (lower text) (snd p))) lang_markers)"
    by (simp add: detect_language_def Let_def case_prod_unfold)
  moreover from py_max_key_map [OF ne, of "marker_score (lower text)"]
  obtain pre k a post where "lang_markers = pre @ (k, a) # post
    \<and> py_max_key (map (\<lambda>p. (fst p, marker_score (lower text) (snd p))) lang_markers) = Inr k
    \<and> (\<forall>p\<in>set pre. marker_score (lower text) (snd p) < marker_score (lower text) a)
    \<and> (\<forall>p\<in>set post. marker_score (lower text) (snd p) \<le> marker_score (lower text) a)"
    by blast
  ultimately have "lang_markers = pre @ (k, a) # post
    \<and> detect_language text = Inr k
    \<and> (\<forall>p\<in>set pre. marker_score (lower text) (snd p) < marker_score (lower text) a)
    \<and> (\<forall>p\<in>set post. marker_score (lower text) (snd p) \<le> marker_score (lower text) a)"
    by simp
  then show ?thesis by (intro exI)
qed

lemma marker_score_substring:
  "marker_score text_lower words
     = length (filter (\<lambda>w. \<exists>a b. text_lower = a @ '' '' @ w @ '' '' @ b) words)"
  by (simp add: marker_score_def py_in_iff)

lemma detect_language_codes:
  "detect_language text \<in> Inr ` {''de'', ''es'', ''fr'', ''en''}"
proof -
  from detect_language_split [of "text"] obtain pre lang words post where
    s: "lang_markers = pre @ (lang, words) # post" and d: "detect_language text = Inr lang"
    by blast
  have "(lang, words) \<in> set lang_markers" by (subst s) simp
  then have "lang \<in> fst ` set lang_markers" by force
  moreover have "fst ` set lang_markers = {''de'', ''es'', ''fr'', ''en''}"
    by (simp add: lang_markers_def)
  ultimately show ?thesis using d by blast
qed

text \<open>
  C9, as the specification states it, fails: the source does not count occurrences. It
  counts, for each language, how many of its marker words occur at all. In the text
  below the English markers occur four times and the Spanish ones three times, so the
  count of occurrences selects English; the source finds two English markers and three
  Spanish ones and returns Spanish.
\<close>

theorem detect_language_counterexample:
  "detect_language
     castle_text
     = Inr ''es''
   \<and> spec_detect_language
     castle_text
     = Inr ''en''"
  by code_simp

text \<open>
  C9, amended. For every text, each of the four languages is scored by the number of
  its marker words that occur at least once in the lowercased text as the substring
  space, word, space. The language returned is the first one of the table order de, es,
  fr, en whose score is maximal: every language before it has a strictly smaller score
  and every language after it has at most its score. The result is always one of the
  four codes, and the empty text gives de.
\<close>

theorem detect_language_first_maximal:
  "(\<exists>pre lang words post.
       lang_markers = pre @ (lang, words) # post
     \<and> detect_language text = Inr lang
     \<and> (\<forall>p\<in>set pre. marker_score (lower text) (snd p) < marker_score (lower text) words)
     \<and> (\<forall>p\<in>set post. marker_score (lower text) (snd p) \<le> marker_score (lower text) words))
   \<and> marker_score (lower text) ws
       = length (filter (\<lambda>w. \<exists>a b. lower text = a @ '' '' @ w @ '' '' @ b) ws)
   \<and> map fst lang_markers = [''de'', ''es'', ''fr'', ''en'']
   \<and> detect_language text \<in> Inr ` {''de'', ''es'', ''fr'', ''en''}
   \<and> detect_language [] = Inr ''de''"
proof (intro conjI)
  show "\<exists>pre lang words post.
       lang_markers = pre @ (lang, words) # post
     \<and> detect_language text = Inr lang
     \<and> (\<forall>p\<in>set pre. marker_score (lower text) (snd p) < marker_score (lower text) words)
     \<and> (\<forall>p\<in>set post. marker_score (lower text) (snd p) \<le> marker_score (lower text) words)"
    by (rule detect_language_split)
  show "marker_score (lower text) ws
       = length (filter (\<lambda>w. \<exists>a b. lower text = a @ '' '' @ w @ '' '' @ b) ws)"
    by (rule marker_score_substring)
  show "map fst lang_markers = [''de'', ''es'', ''fr'', ''en'']"
    by (simp add: lang_markers_def)
  show "detect_language text \<in> Inr ` {''de'', ''es'', ''fr'', ''en''}"
    by (rule detect_language_codes)
  show "detect_language [] = Inr ''de''"
    by code_simp
qed

theorem detect_language_first_maximal_witness:
  "detect_language ''der Hund und die Katze sind nicht hier''
     \<in> Inr ` {''de'', ''es'', ''fr'', ''en''}
   \<and> detect_language ''der Hund und die Katze sind nicht hier'' = Inr ''de''"
proof -
  have "detect_language ''der Hund und die Katze sind nicht hier'' = Inr ''de''"
    by code_simp
  with detect_language_first_maximal [of "''der Hund und die Katze sind nicht hier''"]
  show ?thesis by blast
qed

subsection \<open>Rounding\<close>

lemma round_half_even_near: "\<bar>real_of_int (round_half_even x) - x\<bar> \<le> 1 / 2"
  unfolding round_half_even_def Let_def by (auto; linarith)

lemma round_half_even_spec:
  "\<bar>real_of_int (round_half_even x) - x\<bar> < 1 / 2
   \<or> (\<bar>real_of_int (round_half_even x) - x\<bar> = 1 / 2 \<and> even (round_half_even x))"
  unfolding round_half_even_def Let_def by (auto; linarith)

lemma round_half_even_unique:
  assumes "\<bar>real_of_int n - x\<bar> < 1 / 2 \<or> (\<bar>real_of_int n - x\<bar> = 1 / 2 \<and> even n)"
  shows "round_half_even x = n"
proof -
  let ?r = "round_half_even x"
  have d: "\<bar>real_of_int ?r - real_of_int n\<bar> \<le> 1"
    using round_half_even_near [of x] assms by linarith
  show ?thesis
  proof (rule ccontr)
    assume ne: "?r \<noteq> n"
    then have "\<bar>?r - n\<bar> \<ge> 1" by linarith
    then have "\<bar>real_of_int ?r - real_of_int n\<bar> \<ge> 1"
      by (metis of_int_1 of_int_abs of_int_diff of_int_le_iff)
    with d have one: "\<bar>real_of_int ?r - real_of_int n\<bar> = 1" by linarith
    then have h: "\<bar>real_of_int ?r - x\<bar> = 1 / 2" "\<bar>real_of_int n - x\<bar> = 1 / 2"
      using round_half_even_near [of x] assms by linarith+
    then have "even ?r" "even n"
      using round_half_even_spec [of x] assms by auto
    moreover have "\<bar>?r - n\<bar> = 1" using one by linarith
    ultimately show False by presburger
  qed
qed

lemma round_half_even_minus: "round_half_even (- x) = - round_half_even x"
proof (rule round_half_even_unique)
  have "\<bar>real_of_int (- round_half_even x) - - x\<bar> = \<bar>real_of_int (round_half_even x) - x\<bar>"
    by simp
  then show "\<bar>real_of_int (- round_half_even x) - - x\<bar> < 1 / 2
    \<or> (\<bar>real_of_int (- round_half_even x) - - x\<bar> = 1 / 2 \<and> even (- round_half_even x))"
    using round_half_even_spec [of x] by auto
qed

lemma round_half_even_of_int [simp]: "round_half_even (of_int k) = k"
  by (rule round_half_even_unique) simp

lemma round_half_even_mono: "x \<le> y \<Longrightarrow> round_half_even x \<le> round_half_even y"
proof -
  assume xy: "x \<le> y"
  have fl: "\<lfloor>x\<rfloor> \<le> \<lfloor>y\<rfloor>" using xy by (rule floor_mono)
  have rx: "round_half_even x \<le> \<lfloor>x\<rfloor> + 1" and ry: "\<lfloor>y\<rfloor> \<le> round_half_even y"
    unfolding round_half_even_def Let_def by auto
  show ?thesis
  proof (cases "\<lfloor>x\<rfloor> = \<lfloor>y\<rfloor>")
    case True
    then have "x - of_int \<lfloor>x\<rfloor> \<le> y - of_int \<lfloor>y\<rfloor>" using xy by simp
    then show ?thesis
      unfolding round_half_even_def Let_def using True by auto
  next
    case False
    then have "\<lfloor>x\<rfloor> + 1 \<le> \<lfloor>y\<rfloor>" using fl by simp
    then show ?thesis using rx ry by linarith
  qed
qed

lemma pow2_le_cast: "2 ^ k \<le> (n::int) \<Longrightarrow> (2::real) ^ k \<le> real_of_int n"
proof -
  assume "2 ^ k \<le> n"
  then have "real_of_int (2 ^ k) \<le> real_of_int n" by (simp only: of_int_le_iff)
  then show ?thesis by simp
qed

lemma pow2_gt_cast: "(n::int) < 2 ^ k \<Longrightarrow> real_of_int n + 1 \<le> (2::real) ^ k"
proof -
  assume "n < 2 ^ k"
  then have "n + 1 \<le> 2 ^ k" by simp
  then have "real_of_int (n + 1) \<le> real_of_int (2 ^ k)" by (simp only: of_int_le_iff)
  then show ?thesis by simp
qed

lemma float_exponent_minus [simp]: "float_exponent (- x) = float_exponent x"
  by (simp add: float_exponent_def)

lemma float_exponent_bounds:
  assumes "x \<noteq> 0"
  shows "2 powi float_exponent x \<le> \<bar>x\<bar>" and "\<bar>x\<bar> < 2 powi (float_exponent x + 1)"
proof -
  define a where "a = \<bar>x\<bar>"
  have apos: "0 < a" using assms by (simp add: a_def)
  have "2 powi float_exponent x \<le> a \<and> a < 2 powi (float_exponent x + 1)"
  proof (cases "1 \<le> a")
    case True
    define n where "n = \<lfloor>a\<rfloor>"
    have n1: "1 \<le> n" using True by (simp add: n_def le_floor_iff)
    then have npos: "0 < n" by simp
    have e: "float_exponent x = bitlen n - 1"
      using True by (simp add: float_exponent_def a_def n_def)
    have b1: "1 \<le> bitlen n" using npos by (simp add: bitlen_alt_def)
    from bitlen_bounds [OF npos] have lo: "2 ^ nat (bitlen n - 1) \<le> n" and hi: "n < 2 ^ nat (bitlen n)"
      by simp_all
    have na: "real_of_int n \<le> a" "a < real_of_int n + 1" by (simp_all add: n_def)
    have "(2::real) ^ nat (bitlen n - 1) \<le> a"
      using pow2_le_cast [OF lo] na by linarith
    then have 1: "2 powi (bitlen n - 1) \<le> a"
      using b1 by (simp add: power_int_nonneg_exp)
    have "a < (2::real) ^ nat (bitlen n)"
      using pow2_gt_cast [OF hi] na by linarith
    then have 2: "a < 2 powi (bitlen n)"
      using b1 by (simp add: power_int_nonneg_exp)
    show ?thesis using 1 2 e by simp
  next
    case False
    then have a1: "a < 1" by simp
    define y where "y = 1 / a"
    have y1: "1 < y" using apos a1 by (simp add: y_def)
    define m where "m = \<lceil>y\<rceil> - 1"
    have "\<lceil>y\<rceil> \<ge> 2" using y1 by (simp add: le_ceiling_iff)
    then have mpos: "0 < m" by (simp add: m_def)
    have my: "real_of_int m < y" "y \<le> real_of_int m + 1"
      unfolding m_def by linarith+
    have e: "float_exponent x = - bitlen m"
      using False by (simp add: float_exponent_def a_def [symmetric] m_def y_def)
    have b1: "1 \<le> bitlen m" using mpos by (simp add: bitlen_alt_def)
    from bitlen_bounds [OF mpos] have lo: "2 ^ nat (bitlen m - 1) \<le> m" and hi: "m < 2 ^ nat (bitlen m)"
      by simp_all
    have "(2::real) ^ nat (bitlen m - 1) < y"
      using pow2_le_cast [OF lo] my by linarith
    then have "2 powi (bitlen m - 1) < y"
      using b1 by (simp add: power_int_nonneg_exp)
    then have "a < 1 / 2 powi (bitlen m - 1)"
      using apos unfolding y_def by (simp add: field_simps)
    then have 2: "a < 2 powi (- bitlen m + 1)"
      by (simp add: power_int_minus_divide [symmetric])
    have "y \<le> (2::real) ^ nat (bitlen m)"
      using pow2_gt_cast [OF hi] my by linarith
    then have "y \<le> 2 powi (bitlen m)"
      using b1 by (simp add: power_int_nonneg_exp)
    then have "1 / 2 powi (bitlen m) \<le> a"
      using apos unfolding y_def by (simp add: field_simps)
    then have 1: "2 powi (- bitlen m) \<le> a"
      by (simp add: power_int_minus_divide)
    show ?thesis using 1 2 e by simp
  qed
  then show "2 powi float_exponent x \<le> \<bar>x\<bar>" and "\<bar>x\<bar> < 2 powi (float_exponent x + 1)"
    by (simp_all add: a_def)
qed

lemma fl_zero [simp]: "fl 0 = 0"
  by (simp add: fl_def)

lemma fl_minus: "fl (- x) = - fl x"
  by (simp add: fl_def Let_def round_half_even_minus)

lemma fl_bounds_pos:
  assumes "0 < x"
  shows "2 powi float_exponent x \<le> fl x" and "fl x \<le> 2 powi (float_exponent x + 1)"
proof -
  define e where "e = float_exponent x"
  define u :: real where "u = 2 powi (e - 52)"
  have upos: "0 < u" by (simp add: u_def)
  have f: "fl x = of_int (round_half_even (x / u)) * u"
    using assms by (simp add: fl_def Let_def e_def u_def)
  have b: "2 powi e \<le> x" "x < 2 powi (e + 1)"
    using float_exponent_bounds [of x] assms by (simp_all add: e_def)
  have p52: "2 powi e = 2 ^ 52 * u" and p53: "2 powi (e + 1) = 2 ^ 53 * u"
    by (simp_all add: u_def power_int_diff power_int_add)
  have c52: "real_of_int (2 ^ 52) = 2 ^ 52" and c53: "real_of_int (2 ^ 53) = 2 ^ 53"
    by simp_all
  have "2 ^ 52 * u \<le> x" using b(1) by (simp only: p52)
  then have "2 ^ 52 \<le> x / u" using upos by (simp add: field_simps)
  then have "real_of_int (2 ^ 52) \<le> x / u" by (simp only: c52)
  then have "round_half_even (real_of_int (2 ^ 52)) \<le> round_half_even (x / u)"
    by (rule round_half_even_mono)
  then have lo: "2 ^ 52 \<le> round_half_even (x / u)" by (simp only: round_half_even_of_int)
  have "x < 2 ^ 53 * u" using b(2) by (simp only: p53)
  then have "x / u \<le> 2 ^ 53" using upos by (simp add: field_simps)
  then have "x / u \<le> real_of_int (2 ^ 53)" by (simp only: c53)
  then have "round_half_even (x / u) \<le> round_half_even (real_of_int (2 ^ 53))"
    by (rule round_half_even_mono)
  then have hi: "round_half_even (x / u) \<le> 2 ^ 53" by (simp only: round_half_even_of_int)
  have "(2::real) ^ 52 \<le> real_of_int (round_half_even (x / u))"
    using lo by (rule pow2_le_cast)
  then have "2 ^ 52 * u \<le> of_int (round_half_even (x / u)) * u"
    using upos by simp
  then show "2 powi float_exponent x \<le> fl x" by (simp add: f p52 e_def [symmetric])
  have "real_of_int (round_half_even (x / u)) \<le> real_of_int (2 ^ 53)"
    using hi by (simp only: of_int_le_iff)
  then have "real_of_int (round_half_even (x / u)) \<le> 2 ^ 53" by (simp only: c53)
  then have "of_int (round_half_even (x / u)) * u \<le> 2 ^ 53 * u"
    using upos by simp
  then show "fl x \<le> 2 powi (float_exponent x + 1)" by (simp add: f p53 e_def [symmetric])
qed

lemma fl_pos: "0 < x \<Longrightarrow> 0 < fl x"
proof -
  assume "0 < x"
  then have "2 powi float_exponent x \<le> fl x" by (rule fl_bounds_pos)
  moreover have "(0::real) < 2 powi float_exponent x" by simp
  ultimately show ?thesis by linarith
qed

lemma fl_mono_pos:
  assumes "0 < x" "x \<le> y"
  shows "fl x \<le> fl y"
proof -
  have ypos: "0 < y" using assms by simp
  define ex where "ex = float_exponent x"
  define ey where "ey = float_exponent y"
  have bx: "2 powi ex \<le> x" "x < 2 powi (ex + 1)"
    using float_exponent_bounds [of x] assms by (simp_all add: ex_def)
  have by': "2 powi ey \<le> y" "y < 2 powi (ey + 1)"
    using float_exponent_bounds [of y] ypos by (simp_all add: ey_def)
  have le: "ex \<le> ey"
  proof (rule ccontr)
    assume "\<not> ex \<le> ey"
    then have "ey + 1 \<le> ex" by simp
    then have "(2::real) powi (ey + 1) \<le> 2 powi ex" by (intro power_int_increasing) simp_all
    then show False using bx by' assms by linarith
  qed
  show ?thesis
  proof (cases "ex = ey")
    case True
    define u :: real where "u = 2 powi (ex - 52)"
    have upos: "0 < u" by (simp add: u_def)
    have "x / u \<le> y / u" using assms upos by (simp add: divide_right_mono)
    then have "round_half_even (x / u) \<le> round_half_even (y / u)" by (rule round_half_even_mono)
    then have "real_of_int (round_half_even (x / u)) * u \<le> real_of_int (round_half_even (y / u)) * u"
      using upos by simp
    then show ?thesis
      using assms ypos True by (simp add: fl_def Let_def ex_def [symmetric] ey_def [symmetric] u_def)
  next
    case False
    then have "ex + 1 \<le> ey" using le by simp
    then have "(2::real) powi (ex + 1) \<le> 2 powi ey" by (intro power_int_increasing) simp_all
    moreover have "fl x \<le> 2 powi (ex + 1)" using fl_bounds_pos [OF assms(1)] by (simp add: ex_def)
    moreover have "2 powi ey \<le> fl y" using fl_bounds_pos [OF ypos] by (simp add: ey_def)
    ultimately show ?thesis by linarith
  qed
qed

lemma fl_mono: "x \<le> y \<Longrightarrow> fl x \<le> fl y"
proof -
  assume xy: "x \<le> y"
  consider "0 < x" | "x \<le> 0" "0 \<le> y" | "y < 0" by linarith
  then show ?thesis
  proof cases
    case 1
    then show ?thesis using xy by (rule fl_mono_pos)
  next
    case 2
    have "fl x \<le> 0"
    proof (cases "x = 0")
      case True then show ?thesis by simp
    next
      case False
      then have "0 < - x" using 2 by simp
      then have "0 < fl (- x)" by (rule fl_pos)
      then show ?thesis by (simp add: fl_minus)
    qed
    moreover have "0 \<le> fl y"
    proof (cases "y = 0")
      case True then show ?thesis by simp
    next
      case False
      then have "0 < y" using 2 by simp
      then have "0 < fl y" by (rule fl_pos)
      then show ?thesis by simp
    qed
    ultimately show ?thesis by linarith
  next
    case 3
    then have "0 < - y" "- y \<le> - x" using xy by simp_all
    then have "fl (- y) \<le> fl (- x)" by (rule fl_mono_pos)
    then show ?thesis by (simp add: fl_minus)
  qed
qed

lemma fl_nonneg: "0 \<le> x \<Longrightarrow> 0 \<le> fl x"
  using fl_mono [of 0 x] by simp

lemma py_round1_mono: "x \<le> y \<Longrightarrow> py_round1 x \<le> py_round1 y"
proof -
  assume "x \<le> y"
  then have "round_half_even (x * 10) \<le> round_half_even (y * 10)"
    by (intro round_half_even_mono) simp
  then have "real_of_int (round_half_even (x * 10)) / 10 \<le> real_of_int (round_half_even (y * 10)) / 10"
    by simp
  then show ?thesis unfolding py_round1_def by (rule fl_mono)
qed

lemma py_round1_zero [simp]: "py_round1 0 = 0"
  by (simp add: py_round1_def round_half_even_def)

lemma py_round1_nonneg: "0 \<le> x \<Longrightarrow> 0 \<le> py_round1 x"
  using py_round1_mono [of 0 x] by simp

lemma py_round1_tenth:
  "\<exists>k::int. py_round1 x = fl (real_of_int k / 10) \<and> \<bar>real_of_int k / 10 - x\<bar> \<le> 1 / 20"
proof -
  have "\<bar>real_of_int (round_half_even (x * 10)) / 10 - x\<bar> \<le> 1 / 20"
    using round_half_even_near [of "x * 10"] by (simp add: field_simps)
  then have "py_round1 x = fl (real_of_int (round_half_even (x * 10)) / 10)
      \<and> \<bar>real_of_int (round_half_even (x * 10)) / 10 - x\<bar> \<le> 1 / 20"
    by (simp add: py_round1_def)
  then show ?thesis by (intro exI)
qed

lemma int_div_mono: "a \<le> b \<Longrightarrow> int_div a w \<le> int_div b w"
  unfolding int_div_def by (intro fl_mono divide_right_mono) simp_all

lemma fmul_mono: "0 \<le> c \<Longrightarrow> a \<le> b \<Longrightarrow> fmul c a \<le> fmul c b"
  unfolding fmul_def by (intro fl_mono mult_left_mono)

lemma fadd_mono: "a \<le> b \<Longrightarrow> fadd c a \<le> fadd c b"
  unfolding fadd_def by (intro fl_mono) simp

lemma fsub_mono: "a \<le> b \<Longrightarrow> fsub a c \<le> fsub b c"
  unfolding fsub_def by (intro fl_mono) simp

lemma grade_mono:
  "y1 \<le> y2 \<Longrightarrow>
   fsub (fadd (fmul (fl 0.39) a) (fmul (fl 11.8) (int_div y1 w))) (fl 15.59)
   \<le> fsub (fadd (fmul (fl 0.39) a) (fmul (fl 11.8) (int_div y2 w))) (fl 15.59)"
  by (intro fsub_mono fadd_mono fmul_mono int_div_mono fl_nonneg) simp_all

subsection \<open>Terminator runs\<close>

lemma runs_zip:
  "length (filter (\<lambda>(prev, c). P c \<and> (case prev of None \<Rightarrow> True | Some q \<Rightarrow> \<not> P q))
                  (zip (prev # map Some s) s))
   = (if (case prev of None \<Rightarrow> False | Some q \<Rightarrow> P q)
      then length (findall_runs P (dropWhile P s)) else length (findall_runs P s))"
proof (induction s arbitrary: prev)
  case Nil
  then show ?case by simp
next
  case (Cons c cs)
  show ?case
    using Cons.IH [of "Some c"] by (cases prev) auto
qed

lemma findall_runs_spec:
  "length (findall_runs is_terminator s) = spec_terminator_runs s"
  unfolding spec_terminator_runs_def using runs_zip [of is_terminator None s] by simp

lemma is_terminator_iff:
  "is_terminator c \<longleftrightarrow> c = CHR ''.'' \<or> c = CHR ''!'' \<or> c = CHR ''?''"
  by (auto simp: is_terminator_def)

lemma spec_terminator_runs_explicit:
  "spec_terminator_runs cleaned
   = length (filter (\<lambda>(prev, c). (c = CHR ''.'' \<or> c = CHR ''!'' \<or> c = CHR ''?'')
                     \<and> (case prev of None \<Rightarrow> True
                         | Some q \<Rightarrow> \<not> (q = CHR ''.'' \<or> q = CHR ''!'' \<or> q = CHR ''?'')))
                  (zip (None # map Some cleaned) cleaned))"
  unfolding spec_terminator_runs_def is_terminator_iff by (rule refl)

lemma cleanup_explicit:
  "cleanup text = filter (\<lambda>c. is_word c \<or> is_space c \<or> c = CHR ''.'' \<or> c = CHR ''!'' \<or> c = CHR ''?'') text"
  unfolding cleanup_def is_terminator_iff by (rule refl)

subsection \<open>The tiers of the readability scorer\<close>

lemma resolve_lang_total: "\<exists>l. resolve_lang text lang = Inr l"
  using detect_language_codes [of "text"] by (auto simp: resolve_lang_def)

lemma manual_calculation_words:
  "10 \<le> length (py_split (cleanup text)) \<Longrightarrow>
   manual_calculation pyphen text l =
     Inr \<lparr>grade_level = Some (py_round1 (max 0
              (fsub (fadd (fmul (fl 0.39)
                             (int_div (length (py_split (cleanup text)))
                                      (max 1 (spec_terminator_runs (cleanup text)))))
                          (fmul (fl 11.8)
                             (int_div (sum_list (map (\<lambda>w. count_syllables pyphen w l)
                                                    (py_split (cleanup text))))
                                      (length (py_split (cleanup text))))))
                    (fl 15.59)))),
          cefr = grade_to_cefr (Some
              (fsub (fadd (fmul (fl 0.39)
                             (int_div (length (py_split (cleanup text)))
                                      (max 1 (spec_terminator_runs (cleanup text)))))
                          (fmul (fl 11.8)
                             (int_div (sum_list (map (\<lambda>w. count_syllables pyphen w l)
                                                    (py_split (cleanup text))))
                                      (length (py_split (cleanup text))))))
                    (fl 15.59))),
          error = None, language = Some l\<rparr>"
  by (auto simp: manual_calculation_def Let_def py_div_def findall_runs_spec
           simp del: grade_to_cefr.simps)

lemma manual_calculation_few:
  "length (py_split (cleanup text)) < 10 \<Longrightarrow>
   manual_calculation pyphen text l =
     Inr \<lparr>grade_level = None, cefr = None, error = Some ''Not enough words'', language = None\<rparr>"
  by (simp add: manual_calculation_def Let_def)

lemma calculate_short:
  "length text < 100 \<Longrightarrow>
   calculate_reading_difficulty textstat pyphen text lang =
     Inr \<lparr>grade_level = None, cefr = None, error = Some ''Text too short'', language = None\<rparr>"
  by (simp add: calculate_reading_difficulty_def)

lemma calculate_fallback:
  "100 \<le> length text \<Longrightarrow> resolve_lang text lang = Inr l \<Longrightarrow>
   preferred_grade textstat l text = None \<Longrightarrow>
   calculate_reading_difficulty textstat pyphen text lang = manual_calculation pyphen text l"
  by (auto simp: calculate_reading_difficulty_def)

lemma calculate_total: "\<exists>r. calculate_reading_difficulty textstat pyphen text lang = Inr r"
proof -
  obtain l where l: "resolve_lang text lang = Inr l" using resolve_lang_total by blast
  have m: "\<exists>r. manual_calculation pyphen text l = Inr r"
    using manual_calculation_words [of "text" pyphen l] manual_calculation_few [of "text" pyphen l]
    by (cases "length (py_split (cleanup text)) < 10") auto
  show ?thesis
    using l m by (auto simp: calculate_reading_difficulty_def split: option.splits)
qed

lemma fallback_result:
  assumes "100 \<le> length text" "resolve_lang text lang = Inr l"
    "preferred_grade textstat l text = None"
    and "cleaned = filter (\<lambda>c. is_word c \<or> is_space c \<or> c = CHR ''.'' \<or> c = CHR ''!'' \<or> c = CHR ''?'') text"
    and "words = py_split cleaned"
    and "sentences = max 1
           (length (filter (\<lambda>(prev, c). (c = CHR ''.'' \<or> c = CHR ''!'' \<or> c = CHR ''?'')
                     \<and> (case prev of None \<Rightarrow> True
                         | Some q \<Rightarrow> \<not> (q = CHR ''.'' \<or> q = CHR ''!'' \<or> q = CHR ''?'')))
                  (zip (None # map Some cleaned) cleaned)))"
    and "syllables = sum_list (map (\<lambda>w. count_syllables pyphen w l) words)"
    and "10 \<le> length words"
  shows "calculate_reading_difficulty textstat pyphen text lang
         = Inr \<lparr>grade_level = Some (py_round1 (max 0
                    (fsub (fadd (fmul (fl 0.39) (int_div (length words) sentences))
                      (fmul (fl 11.8) (int_div syllables (length words))))
                (fl 15.59)))),
                cefr = grade_to_cefr (Some
                    (fsub (fadd (fmul (fl 0.39) (int_div (length words) sentences))
                      (fmul (fl 11.8) (int_div syllables (length words))))
                (fl 15.59))),
                error = None, language = Some l\<rparr>"
proof -
  have c: "cleaned = cleanup text" using assms(4) by (simp add: cleanup_explicit)
  have s: "sentences = max 1 (spec_terminator_runs (cleanup text))"
    using assms(6) unfolding c by (simp only: spec_terminator_runs_explicit)
  have w: "10 \<le> length (py_split (cleanup text))" using assms(5) assms(8) c by simp
  show ?thesis
    unfolding calculate_fallback [OF assms(1) assms(2) assms(3)] manual_calculation_words [OF w]
      assms(7) assms(5) s c ..
qed

subsection \<open>The fallback grade\<close>

text \<open>
  C5. In the fallback tier (the readability library is absent or its call raises), for
  every text of at least 100 characters whose cleanup (every character removed except
  word characters, whitespace and the terminators . ! ?) leaves at least 10
  whitespace-separated words, the scorer returns the grade
  0.39 * (words / sentences) + 11.8 * (syllables / words) - 15.59, clamped to a minimum of
  0 and rounded to one decimal place, where sentences is the number of terminator runs of
  the cleaned text, at least 1, and syllables is the sum of the syllable counts of the
  words. The arithmetic is that of the program: every division, product, sum and
  difference is rounded to a double, and so are the three constants. The returned grade
  is the double nearest to a multiple of one tenth that lies within one twentieth of the
  clamped grade, and it is not negative.
\<close>

theorem fallback_grade:
  assumes "100 \<le> length text" "resolve_lang text lang = Inr l"
    "preferred_grade textstat l text = None"
    and "cleaned = filter (\<lambda>c. is_word c \<or> is_space c \<or> c = CHR ''.'' \<or> c = CHR ''!'' \<or> c = CHR ''?'') text"
    and "words = py_split cleaned"
    and "sentences = max 1
           (length (filter (\<lambda>(prev, c). (c = CHR ''.'' \<or> c = CHR ''!'' \<or> c = CHR ''?'')
                              \<and> (case prev of None \<Rightarrow> True
                                  | Some q \<Rightarrow> \<not> (q = CHR ''.'' \<or> q = CHR ''!'' \<or> q = CHR ''?'')))
                           (zip (None # map Some cleaned) cleaned)))"
    and "syllables = sum_list (map (\<lambda>w. count_syllables pyphen w l) words)"
    and "10 \<le> length words"
  shows "\<exists>r g k.
           calculate_reading_difficulty textstat pyphen text lang = Inr r
         \<and> grade_level r = Some g
         \<and> g = py_round1 (max 0
                 (fsub (fadd (fmul (fl 0.39) (int_div (length words) sentences))
                             (fmul (fl 11.8) (int_div syllables (length words))))
                       (fl 15.59)))
         \<and> g = fl (real_of_int k / 10)
         \<and> \<bar>real_of_int k / 10 - max 0
                 (fsub (fadd (fmul (fl 0.39) (int_div (length words) sentences))
                             (fmul (fl 11.8) (int_div syllables (length words))))
                       (fl 15.59))\<bar> \<le> 1 / 20
         \<and> 0 \<le> g"
proof -
  define D where "D = fsub (fadd (fmul (fl 0.39) (int_div (length words) sentences))
                               (fmul (fl 11.8) (int_div syllables (length words))))
                         (fl 15.59)"
  have c: "calculate_reading_difficulty textstat pyphen text lang
           = Inr \<lparr>grade_level = Some (py_round1 (max 0 D)), cefr = grade_to_cefr (Some D),
                  error = None, language = Some l\<rparr>"
    unfolding D_def by (rule fallback_result [OF assms])
  obtain k :: int where k: "py_round1 (max 0 D) = fl (real_of_int k / 10)"
      "\<bar>real_of_int k / 10 - max 0 D\<bar> \<le> 1 / 20"
    using py_round1_tenth [of "max 0 D"] by blast
  have nn: "0 \<le> py_round1 (max 0 D)" by (rule py_round1_nonneg) simp
  have "calculate_reading_difficulty textstat pyphen text lang
           = Inr \<lparr>grade_level = Some (py_round1 (max 0 D)), cefr = grade_to_cefr (Some D),
                  error = None, language = Some l\<rparr>
      \<and> grade_level \<lparr>grade_level = Some (py_round1 (max 0 D)), cefr = grade_to_cefr (Some D),
                  error = None, language = Some l\<rparr> = Some (py_round1 (max 0 D))
      \<and> py_round1 (max 0 D) = py_round1 (max 0 D)
      \<and> py_round1 (max 0 D) = fl (real_of_int k / 10)
      \<and> \<bar>real_of_int k / 10 - max 0 D\<bar> \<le> 1 / 20
      \<and> 0 \<le> py_round1 (max 0 D)"
    using c k nn by simp
  then show ?thesis unfolding D_def by (intro exI)
qed

lemma english_fallback:
  "resolve_lang text (Some ''en'') = Inr ''en''"
  "preferred_grade None ''en'' text = None"
  by (simp_all add: resolve_lang_def truthy_def get_or_empty_def preferred_grade_def)

lemma farmer_supper_result:
  "calculate_reading_difficulty None None farmer_supper (Some ''en'')
     = Inr \<lparr>grade_level = Some (fl 3.7), cefr = Some ''A1'', error = None,
            language = Some ''en''\<rparr>"
  by code_simp

lemma farmer_supper_counts:
  "length (py_split (filter (\<lambda>c. is_word c \<or> is_space c \<or> c = CHR ''.'' \<or> c = CHR ''!'' \<or> c = CHR ''?'') farmer_supper)) = 10"
  "length (py_split farmer_supper) = 12"
  by code_simp+

theorem fallback_grade_witness:
  "100 \<le> length farmer_supper
   \<and> 10 \<le> length (py_split (filter (\<lambda>c. is_word c \<or> is_space c \<or> c = CHR ''.'' \<or> c = CHR ''!'' \<or> c = CHR ''?'') farmer_supper))
   \<and> (\<exists>r g. calculate_reading_difficulty None None farmer_supper (Some ''en'') = Inr r
          \<and> grade_level r = Some g \<and> g = fl 3.7 \<and> 0 \<le> g)"
proof -
  have 1: "100 \<le> length farmer_supper" by (simp add: farmer_supper_def)
  have 5: "10 \<le> length (py_split (filter (\<lambda>c. is_word c \<or> is_space c \<or> c = CHR ''.'' \<or> c = CHR ''!'' \<or> c = CHR ''?'') farmer_supper))"
    by (simp add: farmer_supper_counts)
  from fallback_grade [OF 1 english_fallback refl refl refl refl 5, of None]
  obtain r g where r: "calculate_reading_difficulty None None farmer_supper (Some ''en'') = Inr r"
    "grade_level r = Some g" "0 \<le> g"
    by blast
  then have "g = fl 3.7" unfolding farmer_supper_result by auto
  then have "calculate_reading_difficulty None None farmer_supper (Some ''en'') = Inr r
      \<and> grade_level r = Some g \<and> g = fl 3.7 \<and> 0 \<le> g"
    using r by simp
  then have "\<exists>r g. calculate_reading_difficulty None None farmer_supper (Some ''en'') = Inr r
      \<and> grade_level r = Some g \<and> g = fl 3.7 \<and> 0 \<le> g"
    by (intro exI)
  then show ?thesis using 1 5 by simp
qed

lemma long_words_counts:
  "length (py_split (cleanup three_long_words)) = 3"
  by code_simp

subsection \<open>Failing soft\<close>

text \<open>
  C6. The readability scorer fails soft. For every text shorter than 100 characters, the
  empty text included, it returns a null grade level and a null band with the reason
  "Text too short"; for every text whose cleanup in the fallback tier has fewer than 10
  words it returns a null grade level and a null band with the reason "Not enough
  words". It never raises: for every input it returns a result.
\<close>

theorem scorer_fails_soft:
  "(length text < 100 \<longrightarrow>
      calculate_reading_difficulty textstat pyphen text lang
        = Inr \<lparr>grade_level = None, cefr = None, error = Some ''Text too short'',
               language = None\<rparr>)
   \<and> (100 \<le> length text \<and> resolve_lang text lang = Inr l
        \<and> preferred_grade textstat l text = None
        \<and> length (py_split (cleanup text)) < 10 \<longrightarrow>
      calculate_reading_difficulty textstat pyphen text lang
        = Inr \<lparr>grade_level = None, cefr = None, error = Some ''Not enough words'',
               language = None\<rparr>)
   \<and> (\<exists>r. calculate_reading_difficulty textstat pyphen text lang = Inr r)
   \<and> calculate_reading_difficulty textstat pyphen [] lang
        = Inr \<lparr>grade_level = None, cefr = None, error = Some ''Text too short'',
               language = None\<rparr>
   \<and> calculate_reading_difficulty textstat pyphen ''short'' lang
        = Inr \<lparr>grade_level = None, cefr = None, error = Some ''Text too short'',
               language = None\<rparr>"
proof (intro conjI impI)
  assume "length text < 100"
  then show "calculate_reading_difficulty textstat pyphen text lang
        = Inr \<lparr>grade_level = None, cefr = None, error = Some ''Text too short'',
               language = None\<rparr>"
    by (rule calculate_short)
next
  assume a: "100 \<le> length text \<and> resolve_lang text lang = Inr l
        \<and> preferred_grade textstat l text = None
        \<and> length (py_split (cleanup text)) < 10"
  then have "calculate_reading_difficulty textstat pyphen text lang
             = manual_calculation pyphen text l"
    using calculate_fallback by blast
  then show "calculate_reading_difficulty textstat pyphen text lang
        = Inr \<lparr>grade_level = None, cefr = None, error = Some ''Not enough words'',
               language = None\<rparr>"
    using a manual_calculation_few by simp
next
  show "\<exists>r. calculate_reading_difficulty textstat pyphen text lang = Inr r"
    by (rule calculate_total)
next
  show "calculate_reading_difficulty textstat pyphen [] lang
        = Inr \<lparr>grade_level = None, cefr = None, error = Some ''Text too short'',
               language = None\<rparr>"
    by (rule calculate_short) simp
next
  show "calculate_reading_difficulty textstat pyphen ''short'' lang
        = Inr \<lparr>grade_level = None, cefr = None, error = Some ''Text too short'',
               language = None\<rparr>"
    by (rule calculate_short) simp
qed

theorem scorer_fails_soft_witness:
  "100 \<le> length three_long_words
   \<and> length (py_split (cleanup three_long_words)) < 10
   \<and> calculate_reading_difficulty None None three_long_words (Some ''en'')
        = Inr \<lparr>grade_level = None, cefr = None, error = Some ''Not enough words'',
               language = None\<rparr>"
proof -
  have 1: "100 \<le> length three_long_words" by (simp add: three_long_words_def)
  have 2: "resolve_lang three_long_words (Some ''en'') = Inr ''en''"
    by (simp add: resolve_lang_def truthy_def get_or_empty_def)
  have 3: "preferred_grade None ''en'' three_long_words = None"
    by (simp add: preferred_grade_def)
  have 4: "length (py_split (cleanup three_long_words)) < 10"
    by (simp add: long_words_counts)
  from scorer_fails_soft [of three_long_words None None "Some ''en''" "''en''", THEN conjunct2, THEN conjunct1]
    1 2 3 4
  show ?thesis by blast
qed

subsection \<open>Monotonicity of the fallback grade\<close>

text \<open>
  C7, as the specification states it, fails for the grade level that the scorer returns:
  the grade is clamped at 0 and rounded. The two texts below have 20 words and 4
  sentences each, the second has one syllable more, and both are given the grade 0.
\<close>

theorem monotonicity_counterexample:
  "calculate_reading_difficulty None None dog_friend_four (Some ''en'')
     = Inr \<lparr>grade_level = Some 0, cefr = Some ''A1'', error = None, language = Some ''en''\<rparr>
   \<and> calculate_reading_difficulty None None dog_father_four (Some ''en'')
     = Inr \<lparr>grade_level = Some 0, cefr = Some ''A1'', error = None, language = Some ''en''\<rparr>
   \<and> length (py_split (cleanup dog_friend_four)) = 20
   \<and> length (py_split (cleanup dog_father_four)) = 20
   \<and> length (findall_runs is_terminator (cleanup dog_friend_four)) = 4
   \<and> length (findall_runs is_terminator (cleanup dog_father_four)) = 4
   \<and> sum_list (map (\<lambda>w. count_syllables None w ''en'') (py_split (cleanup dog_friend_four))) = 20
   \<and> sum_list (map (\<lambda>w. count_syllables None w ''en'') (py_split (cleanup dog_father_four))) = 21"
  by code_simp

text \<open>
  C7, amended. In the fallback tier, for two texts with the same word count and the same
  sentence count, a strictly larger syllable count (so a strictly larger average of
  syllables per word) gives a strictly larger value of the formula
  0.39 * (words / sentences) + 11.8 * (syllables / words) - 15.59, a grade computed by the
  program (in doubles, before clamping and rounding) that is at least as large, and a
  returned grade level that is at least as large.
\<close>

theorem fallback_grade_monotone:
  assumes "100 \<le> length t1" "resolve_lang t1 lang1 = Inr l1"
    "preferred_grade textstat l1 t1 = None"
    and "100 \<le> length t2" "resolve_lang t2 lang2 = Inr l2"
    "preferred_grade textstat l2 t2 = None"
    and "10 \<le> length (py_split (cleanup t1))"
    and "length (py_split (cleanup t1)) = length (py_split (cleanup t2))"
    and "max 1 (spec_terminator_runs (cleanup t1)) = max 1 (spec_terminator_runs (cleanup t2))"
    and "sum_list (map (\<lambda>w. count_syllables pyphen w l1) (py_split (cleanup t1)))
         < sum_list (map (\<lambda>w. count_syllables pyphen w l2) (py_split (cleanup t2)))"
  shows "\<exists>r1 r2 g1 g2.
           calculate_reading_difficulty textstat pyphen t1 lang1 = Inr r1
         \<and> calculate_reading_difficulty textstat pyphen t2 lang2 = Inr r2
         \<and> grade_level r1 = Some g1 \<and> grade_level r2 = Some g2
         \<and> g1 \<le> g2
         \<and> g1 = py_round1 (max 0
                   (fsub (fadd (fmul (fl 0.39)
                                  (int_div (length (py_split (cleanup t1)))
                                           (max 1 (spec_terminator_runs (cleanup t1)))))
                               (fmul (fl 11.8)
                                  (int_div (sum_list (map (\<lambda>w. count_syllables pyphen w l1) (py_split (cleanup t1))))
                                           (length (py_split (cleanup t1))))))
                         (fl 15.59)))
         \<and> g2 = py_round1 (max 0
                   (fsub (fadd (fmul (fl 0.39)
                                  (int_div (length (py_split (cleanup t2)))
                                           (max 1 (spec_terminator_runs (cleanup t2)))))
                               (fmul (fl 11.8)
                                  (int_div (sum_list (map (\<lambda>w. count_syllables pyphen w l2) (py_split (cleanup t2))))
                                           (length (py_split (cleanup t2))))))
                         (fl 15.59)))
         \<and> fsub (fadd (fmul (fl 0.39)
                         (int_div (length (py_split (cleanup t1)))
                                  (max 1 (spec_terminator_runs (cleanup t1)))))
                      (fmul (fl 11.8)
                         (int_div (sum_list (map (\<lambda>w. count_syllables pyphen w l1) (py_split (cleanup t1))))
                                  (length (py_split (cleanup t1))))))
                (fl 15.59)
           \<le> fsub (fadd (fmul (fl 0.39)
                           (int_div (length (py_split (cleanup t2)))
                                    (max 1 (spec_terminator_runs (cleanup t2)))))
                        (fmul (fl 11.8)
                           (int_div (sum_list (map (\<lambda>w. count_syllables pyphen w l2) (py_split (cleanup t2))))
                                    (length (py_split (cleanup t2))))))
                  (fl 15.59)
         \<and> (0.39 * (real (length (py_split (cleanup t1)))
                    / real (max 1 (spec_terminator_runs (cleanup t1))))
            + 11.8 * (real (sum_list (map (\<lambda>w. count_syllables pyphen w l1)
                                               (py_split (cleanup t1))))
                      / real (length (py_split (cleanup t1))))
            - 15.59)
           < (0.39 * (real (length (py_split (cleanup t2)))
                      / real (max 1 (spec_terminator_runs (cleanup t2))))
              + 11.8 * (real (sum_list (map (\<lambda>w. count_syllables pyphen w l2)
                                                 (py_split (cleanup t2))))
                        / real (length (py_split (cleanup t2))))
              - 15.59)"
proof -
  define W where "W = length (py_split (cleanup t1))"
  define S where "S = max 1 (spec_terminator_runs (cleanup t1))"
  define Y1 where "Y1 = sum_list (map (\<lambda>w. count_syllables pyphen w l1) (py_split (cleanup t1)))"
  define Y2 where "Y2 = sum_list (map (\<lambda>w. count_syllables pyphen w l2) (py_split (cleanup t2)))"
  define D1 where "D1 = fsub (fadd (fmul (fl 0.39) (int_div W S)) (fmul (fl 11.8) (int_div Y1 W))) (fl 15.59)"
  define D2 where "D2 = fsub (fadd (fmul (fl 0.39) (int_div W S)) (fmul (fl 11.8) (int_div Y2 W))) (fl 15.59)"
  define G1 where "G1 = 0.39 * (real W / real S) + 11.8 * (real Y1 / real W) - 15.59"
  define G2 where "G2 = 0.39 * (real W / real S) + 11.8 * (real Y2 / real W) - 15.59"
  have W2: "length (py_split (cleanup t2)) = W" using assms(8) by (simp add: W_def)
  have S2: "max 1 (spec_terminator_runs (cleanup t2)) = S" using assms(9) by (simp add: S_def)
  have w10: "10 \<le> length (py_split (cleanup t2))" using assms(7) assms(8) by simp
  have c1: "calculate_reading_difficulty textstat pyphen t1 lang1
           = Inr \<lparr>grade_level = Some (py_round1 (max 0 D1)), cefr = grade_to_cefr (Some D1),
                  error = None, language = Some l1\<rparr>"
    unfolding calculate_fallback [OF assms(1) assms(2) assms(3)]
      manual_calculation_words [OF assms(7)] D1_def W_def S_def Y1_def ..
  have c2: "calculate_reading_difficulty textstat pyphen t2 lang2
           = Inr \<lparr>grade_level = Some (py_round1 (max 0 D2)), cefr = grade_to_cefr (Some D2),
                  error = None, language = Some l2\<rparr>"
    unfolding calculate_fallback [OF assms(4) assms(5) assms(6)]
      manual_calculation_words [OF w10] D2_def W2 S2 Y2_def ..
  have "0 < W" using assms(7) unfolding W_def by linarith
  then have Wpos: "0 < real W" by simp
  have Y: "Y1 < Y2" using assms(10) by (simp add: Y1_def Y2_def)
  then have "real Y1 / real W < real Y2 / real W" using Wpos by (simp add: divide_strict_right_mono)
  then have lt: "G1 < G2" by (simp add: G1_def G2_def)
  have dle: "D1 \<le> D2" unfolding D1_def D2_def using Y by (intro grade_mono) simp
  then have le: "py_round1 (max 0 D1) \<le> py_round1 (max 0 D2)"
    by (intro py_round1_mono) simp
  have "calculate_reading_difficulty textstat pyphen t1 lang1
           = Inr \<lparr>grade_level = Some (py_round1 (max 0 D1)), cefr = grade_to_cefr (Some D1),
                  error = None, language = Some l1\<rparr>
        \<and> calculate_reading_difficulty textstat pyphen t2 lang2
           = Inr \<lparr>grade_level = Some (py_round1 (max 0 D2)), cefr = grade_to_cefr (Some D2),
                  error = None, language = Some l2\<rparr>
        \<and> grade_level \<lparr>grade_level = Some (py_round1 (max 0 D1)), cefr = grade_to_cefr (Some D1),
                  error = None, language = Some l1\<rparr> = Some (py_round1 (max 0 D1))
        \<and> grade_level \<lparr>grade_level = Some (py_round1 (max 0 D2)), cefr = grade_to_cefr (Some D2),
                  error = None, language = Some l2\<rparr> = Some (py_round1 (max 0 D2))
        \<and> py_round1 (max 0 D1) \<le> py_round1 (max 0 D2)
        \<and> py_round1 (max 0 D1) = py_round1 (max 0 D1)
        \<and> py_round1 (max 0 D2) = py_round1 (max 0 D2)
        \<and> D1 \<le> D2
        \<and> G1 < G2"
    using c1 c2 le lt dle by simp
  then show ?thesis
    unfolding G1_def G2_def D1_def D2_def W_def [symmetric] S_def [symmetric] Y1_def [symmetric]
      Y2_def [symmetric] W2 S2
    by (intro exI)
qed

lemma sample_counts:
  "length (py_split (cleanup dog_friend)) = 20"
  "spec_terminator_runs (cleanup dog_friend) = 1"
  "sum_list (map (\<lambda>w. count_syllables None w ''en'') (py_split (cleanup dog_friend))) = 20"
  by code_simp+

lemma sample_counts_father:
  "length (py_split (cleanup dog_father)) = 20"
  "spec_terminator_runs (cleanup dog_father) = 1"
  "sum_list (map (\<lambda>w. count_syllables None w ''en'') (py_split (cleanup dog_father))) = 21"
  by code_simp+

theorem fallback_grade_monotone_witness:
  "\<exists>r1 r2 g1 g2.
      calculate_reading_difficulty None None dog_friend (Some ''en'') = Inr r1
    \<and> calculate_reading_difficulty None None dog_father (Some ''en'') = Inr r2
    \<and> grade_level r1 = Some g1 \<and> grade_level r2 = Some g2 \<and> g1 \<le> g2"
proof -
  have 1: "100 \<le> length dog_friend" by (simp add: dog_friend_def)
  have 4: "100 \<le> length dog_father" by (simp add: dog_father_def)
  have 7: "10 \<le> length (py_split (cleanup dog_friend))"
    by (simp add: sample_counts)
  have 8: "length (py_split (cleanup dog_friend)) = length (py_split (cleanup dog_father))"
    by (simp add: sample_counts sample_counts_father)
  have 9: "max 1 (spec_terminator_runs (cleanup dog_friend))
           = max 1 (spec_terminator_runs (cleanup dog_father))"
    by (simp add: sample_counts sample_counts_father)
  have 10: "sum_list (map (\<lambda>w. count_syllables None w ''en'') (py_split (cleanup dog_friend)))
         < sum_list (map (\<lambda>w. count_syllables None w ''en'') (py_split (cleanup dog_father)))"
    by (simp add: sample_counts sample_counts_father)
  from fallback_grade_monotone [OF 1 english_fallback 4 english_fallback 7 8 9 10]
  show ?thesis by blast
qed

subsection \<open>The band of the fallback tier\<close>

text \<open>
  C10. In the fallback tier the band is computed from the grade before clamping and
  rounding, not from the reported grade level: it is the band of the grade that the
  program computes in doubles from the words, sentences and syllables of the cleaned
  text. So for some text the returned band differs from the band of the returned grade
  level. The first text below has 20 words, 1 sentence and 20 syllables: its grade is a
  little above 4.01 and is reported as 4.0, whose band is A1, while the returned band is
  A2. The second has 20 words, 6 sentences and 31 syllables: the three terms of its grade
  add up to 4 in exact arithmetic, the program computes a double above 4, reports 4.0
  and returns the band A2.
\<close>

theorem band_from_raw_grade:
  "(100 \<le> length text \<and> resolve_lang text lang = Inr l
      \<and> preferred_grade textstat l text = None
      \<and> cleaned = filter (\<lambda>c. is_word c \<or> is_space c \<or> c = CHR ''.'' \<or> c = CHR ''!'' \<or> c = CHR ''?'') text
      \<and> words = py_split cleaned
      \<and> sentences = max 1
             (length (filter (\<lambda>(prev, c). (c = CHR ''.'' \<or> c = CHR ''!'' \<or> c = CHR ''?'')
                                \<and> (case prev of None \<Rightarrow> True
                                    | Some q \<Rightarrow> \<not> (q = CHR ''.'' \<or> q = CHR ''!'' \<or> q = CHR ''?'')))
                             (zip (None # map Some cleaned) cleaned)))
      \<and> syllables = sum_list (map (\<lambda>w. count_syllables pyphen w l) words)
      \<and> 10 \<le> length words \<longrightarrow>
      (\<exists>r. calculate_reading_difficulty textstat pyphen text lang = Inr r
         \<and> cefr r = grade_to_cefr (Some
              (fsub (fadd (fmul (fl 0.39) (int_div (length words) sentences))
                          (fmul (fl 11.8) (int_div syllables (length words))))
                    (fl 15.59)))))
   \<and> (\<exists>r. calculate_reading_difficulty None None dog_friend (Some ''en'') = Inr r
         \<and> grade_level r = Some 4
         \<and> cefr r = Some ''A2''
         \<and> grade_to_cefr (grade_level r) = Some ''A1'')
   \<and> (\<exists>r. calculate_reading_difficulty None None watchman (Some ''en'') = Inr r
         \<and> grade_level r = Some 4
         \<and> cefr r = Some ''A2''
         \<and> grade_to_cefr (grade_level r) = Some ''A1'')
   \<and> 0.39 * (20 / 6) + 11.8 * (31 / 20) - 15.59 = (4 :: real)"
proof (intro conjI impI)
  assume a: "100 \<le> length text \<and> resolve_lang text lang = Inr l
      \<and> preferred_grade textstat l text = None
      \<and> cleaned = filter (\<lambda>c. is_word c \<or> is_space c \<or> c = CHR ''.'' \<or> c = CHR ''!'' \<or> c = CHR ''?'') text
      \<and> words = py_split cleaned
      \<and> sentences = max 1
             (length (filter (\<lambda>(prev, c). (c = CHR ''.'' \<or> c = CHR ''!'' \<or> c = CHR ''?'')
                                \<and> (case prev of None \<Rightarrow> True
                                    | Some q \<Rightarrow> \<not> (q = CHR ''.'' \<or> q = CHR ''!'' \<or> q = CHR ''?'')))
                             (zip (None # map Some cleaned) cleaned)))
      \<and> syllables = sum_list (map (\<lambda>w. count_syllables pyphen w l) words)
      \<and> 10 \<le> length words"
  have "calculate_reading_difficulty textstat pyphen text lang
         = Inr \<lparr>grade_level = Some (py_round1 (max 0
                    (fsub (fadd (fmul (fl 0.39) (int_div (length words) sentences))
                                (fmul (fl 11.8) (int_div syllables (length words))))
                          (fl 15.59)))),
                cefr = grade_to_cefr (Some
                    (fsub (fadd (fmul (fl 0.39) (int_div (length words) sentences))
                                (fmul (fl 11.8) (int_div syllables (length words))))
                          (fl 15.59))),
                error = None, language = Some l\<rparr>"
    by (rule fallback_result [where cleaned = cleaned]) (use a in blast)+
  then show "\<exists>r. calculate_reading_difficulty textstat pyphen text lang = Inr r
         \<and> cefr r = grade_to_cefr (Some
              (fsub (fadd (fmul (fl 0.39) (int_div (length words) sentences))
                          (fmul (fl 11.8) (int_div syllables (length words))))
                    (fl 15.59)))"
    by (simp del: grade_to_cefr.simps)
next
  have "calculate_reading_difficulty None None dog_friend (Some ''en'')
        = Inr \<lparr>grade_level = Some 4, cefr = Some ''A2'', error = None, language = Some ''en''\<rparr>"
    by code_simp
  then show "\<exists>r. calculate_reading_difficulty None None dog_friend (Some ''en'') = Inr r
         \<and> grade_level r = Some 4
         \<and> cefr r = Some ''A2''
         \<and> grade_to_cefr (grade_level r) = Some ''A1''"
    by simp
next
  have "calculate_reading_difficulty None None watchman (Some ''en'')
        = Inr \<lparr>grade_level = Some 4, cefr = Some ''A2'', error = None, language = Some ''en''\<rparr>"
    by code_simp
  then show "\<exists>r. calculate_reading_difficulty None None watchman (Some ''en'') = Inr r
         \<and> grade_level r = Some 4
         \<and> cefr r = Some ''A2''
         \<and> grade_to_cefr (grade_level r) = Some ''A1''"
    by simp
next
  show "0.39 * (20 / 6) + 11.8 * (31 / 20) - 15.59 = (4 :: real)" by simp
qed

lemma watchman_counts:
  "length (py_split (filter (\<lambda>c. is_word c \<or> is_space c \<or> c = CHR ''.'' \<or> c = CHR ''!'' \<or> c = CHR ''?'') watchman)) = 20"
  "length (filter (\<lambda>(prev, c). (c = CHR ''.'' \<or> c = CHR ''!'' \<or> c = CHR ''?'')
                     \<and> (case prev of None \<Rightarrow> True
                         | Some q \<Rightarrow> \<not> (q = CHR ''.'' \<or> q = CHR ''!'' \<or> q = CHR ''?'')))
        (zip (None # map Some (filter (\<lambda>c. is_word c \<or> is_space c \<or> c = CHR ''.'' \<or> c = CHR ''!'' \<or> c = CHR ''?'') watchman))
             (filter (\<lambda>c. is_word c \<or> is_space c \<or> c = CHR ''.'' \<or> c = CHR ''!'' \<or> c = CHR ''?'') watchman))) = 6"
  "sum_list (map (\<lambda>w. count_syllables None w ''en'')
       (py_split (filter (\<lambda>c. is_word c \<or> is_space c \<or> c = CHR ''.'' \<or> c = CHR ''!'' \<or> c = CHR ''?'') watchman))) = 31"
  by code_simp+

lemma watchman_result:
  "calculate_reading_difficulty None None watchman (Some ''en'')
     = Inr \<lparr>grade_level = Some 4, cefr = Some ''A2'', error = None, language = Some ''en''\<rparr>"
  by code_simp

theorem band_from_raw_grade_witness:
  "100 \<le> length watchman
   \<and> 10 \<le> length (py_split (filter (\<lambda>c. is_word c \<or> is_space c \<or> c = CHR ''.'' \<or> c = CHR ''!'' \<or> c = CHR ''?'') watchman))
   \<and> (\<exists>r. calculate_reading_difficulty None None watchman (Some ''en'') = Inr r
         \<and> cefr r = grade_to_cefr (Some
              (fsub (fadd (fmul (fl 0.39) (int_div 20 6)) (fmul (fl 11.8) (int_div 31 20)))
                    (fl 15.59)))
         \<and> cefr r = Some ''A2'')"
proof -
  have 1: "100 \<le> length watchman" by (simp add: watchman_def)
  have 5: "10 \<le> length (py_split (filter (\<lambda>c. is_word c \<or> is_space c \<or> c = CHR ''.'' \<or> c = CHR ''!'' \<or> c = CHR ''?'') watchman))"
    by (simp add: watchman_counts)
  from band_from_raw_grade [of watchman "Some ''en''" "''en''" None
      "filter (\<lambda>c. is_word c \<or> is_space c \<or> c = CHR ''.'' \<or> c = CHR ''!'' \<or> c = CHR ''?'') watchman"
      "py_split (filter (\<lambda>c. is_word c \<or> is_space c \<or> c = CHR ''.'' \<or> c = CHR ''!'' \<or> c = CHR ''?'') watchman)"
      "max 1 (length (filter (\<lambda>(prev, c). (c = CHR ''.'' \<or> c = CHR ''!'' \<or> c = CHR ''?'')
                     \<and> (case prev of None \<Rightarrow> True
                         | Some q \<Rightarrow> \<not> (q = CHR ''.'' \<or> q = CHR ''!'' \<or> q = CHR ''?'')))
        (zip (None # map Some (filter (\<lambda>c. is_word c \<or> is_space c \<or> c = CHR ''.'' \<or> c = CHR ''!'' \<or> c = CHR ''?'') watchman))
             (filter (\<lambda>c. is_word c \<or> is_space c \<or> c = CHR ''.'' \<or> c = CHR ''!'' \<or> c = CHR ''?'') watchman))))"
      "sum_list (map (\<lambda>w. count_syllables None w ''en'')
         (py_split (filter (\<lambda>c. is_word c \<or> is_space c \<or> c = CHR ''.'' \<or> c = CHR ''!'' \<or> c = CHR ''?'') watchman)))"
      None,
      THEN conjunct1]
    1 5 english_fallback [of watchman]
  obtain r where r: "calculate_reading_difficulty None None watchman (Some ''en'') = Inr r"
    "cefr r = grade_to_cefr (Some
              (fsub (fadd (fmul (fl 0.39) (int_div 20 6)) (fmul (fl 11.8) (int_div 31 20)))
                    (fl 15.59)))"
    unfolding watchman_counts by auto
  from r(1) have "cefr r = Some ''A2''" unfolding watchman_result by auto
  then have "calculate_reading_difficulty None None watchman (Some ''en'') = Inr r
         \<and> cefr r = grade_to_cefr (Some
              (fsub (fadd (fmul (fl 0.39) (int_div 20 6)) (fmul (fl 11.8) (int_div 31 20)))
                    (fl 15.59)))
         \<and> cefr r = Some ''A2''"
    using r by (simp del: grade_to_cefr.simps)
  then have "\<exists>r. calculate_reading_difficulty None None watchman (Some ''en'') = Inr r
         \<and> cefr r = grade_to_cefr (Some
              (fsub (fadd (fmul (fl 0.39) (int_div 20 6)) (fmul (fl 11.8) (int_div 31 20)))
                    (fl 15.59)))
         \<and> cefr r = Some ''A2''"
    by (intro exI)
  then show ?thesis using 1 5 by simp
qed

subsection \<open>Whole-word counting\<close>











subsection \<open>Theme detection\<close>











end
